theory Spec2Isabelle
  imports Complex_Main "HOL-Library.Log_Nat"
begin

section \<open>Spot detection in starfish: measuring and assembling intensities\<close>

text \<open>
  A shallow embedding of \<^verbatim>\<open>starfish/spots/_detector/detect.py\<close> and of
  \<^verbatim>\<open>FindSpotsAlgorithmBase._get_measurement_function\<close>.

  The numbers of a table are finite float64 values, modelled as the reals they denote:
  a sum or a difference is rounded to float64, an integer series is int64 and wraps,
  and the cast of a float to int64 truncates, giving \<open>- 2 ^ 63\<close> outside int64 as the
  cast of x86-64 does. A NaN cell of a table is an absent entry of its row, and an
  unset (NaN) entry of the intensity tensor is \<open>None\<close>.
  Exceptions are values of \<open>error\<close>. An exception raised by a caller-supplied
  callable or by an external collaborator (the measurement function, the spot
  finder, the image stack, the coordinate transfer) is \<open>External\<close> with its message.
\<close>

subsection \<open>Errors\<close>

datatype error =
  ValueError string
  | KeyError string
  | IndexError string
  | External string

definition external :: "string + 'a \<Rightarrow> error + 'a" where
  "external r = (case r of Inl m \<Rightarrow> Inl (External m) | Inr v \<Rightarrow> Inr v)"

subsection \<open>Machine numbers\<close>

text \<open>int64 arithmetic wraps around.\<close>

definition wrap64 :: "int \<Rightarrow> int" where
  "wrap64 i = (i + 2 ^ 63) mod 2 ^ 64 - 2 ^ 63"

text \<open>
  Rounding a real to float64: to the nearest multiple of \<open>2 powi (e - 52)\<close>, ties to the
  even multiple, where \<open>e\<close> is the binary exponent of the number and at least -1022
  (below that the numbers are subnormal). The exponent range is not bounded above: the
  sums and differences here are of a float64 and an int64, which is below half a unit
  in the last place of the largest float64, so none overflows.
\<close>

definition binary_exponent :: "real \<Rightarrow> int" where
  "binary_exponent a =
     (if 1 \<le> a then bitlen \<lfloor>a\<rfloor> - 1 else - bitlen (\<lceil>1 / a\<rceil> - 1))"

definition round_half_even :: "real \<Rightarrow> int" where
  "round_half_even q =
     (if q - of_int \<lfloor>q\<rfloor> < 1 / 2 then \<lfloor>q\<rfloor>
      else if 1 / 2 < q - of_int \<lfloor>q\<rfloor> then \<lfloor>q\<rfloor> + 1
      else if even \<lfloor>q\<rfloor> then \<lfloor>q\<rfloor> else \<lfloor>q\<rfloor> + 1)"

definition float64 :: "real \<Rightarrow> real" where
  "float64 x =
     (if x = 0 then 0
      else (let k = max (binary_exponent \<bar>x\<bar>) (- 1022) - 52
            in of_int (round_half_even (x * 2 powi (- k))) * 2 powi k))"

subsection \<open>Tables of spots (pandas DataFrame inside SpotAttributes)\<close>

text \<open>
  A row maps a column label to its cell. A label of \<open>columns\<close> that a row does not
  define is a NaN cell. Series are lists in row order; arithmetic on a NaN cell gives NaN.
\<close>

type_synonym row = "string \<rightharpoonup> real"

record dataframe =
  columns :: "string set"
  rows :: "row list"

text \<open>\<^verbatim>\<open>df[c]\<close>: the column as a series, or KeyError.\<close>

definition getitem :: "dataframe \<Rightarrow> string \<Rightarrow> error + real option list" where
  "getitem df c =
     (if c \<in> columns df then Inr (map (\<lambda>rw. rw c) (rows df)) else Inl (KeyError c))"

text \<open>\<^verbatim>\<open>df[c] = series\<close>: adds or overwrites a column, in place.\<close>

definition setitem :: "dataframe \<Rightarrow> string \<Rightarrow> real option list \<Rightarrow> dataframe" where
  "setitem df c vals =
     \<lparr>columns = insert c (columns df),
      rows = map (\<lambda>(rw, v). rw(c := v)) (zip (rows df) vals)\<rparr>"

text \<open>\<^verbatim>\<open>.astype(int)\<close>: the cast to int64. It truncates towards zero; outside int64
  it gives \<open>- 2 ^ 63\<close>; a NaN cell raises ValueError.\<close>

definition astype_int :: "real \<Rightarrow> int" where
  "astype_int v =
     (let t = (if 0 \<le> v then \<lfloor>v\<rfloor> else \<lceil>v\<rceil>)
      in if - (2 ^ 63) \<le> t \<and> t < 2 ^ 63 then t else - (2 ^ 63))"

definition nan_message :: string where
  "nan_message = ''Cannot convert non-finite values (NA or inf) to integer''"

fun series_astype_int :: "real option list \<Rightarrow> error + int list" where
  "series_astype_int [] = Inr []"
| "series_astype_int (None # cs) = Inl (ValueError nan_message)"
| "series_astype_int (Some v # cs) =
     (case series_astype_int cs of
        Inl e \<Rightarrow> Inl e
      | Inr is \<Rightarrow> Inr (astype_int v # is))"

text \<open>\<^verbatim>\<open>np.ceil(series)\<close>, \<^verbatim>\<open>np.clip(series, 0, None)\<close> and
  \<^verbatim>\<open>np.clip(series, None, max_size)\<close>, cell by cell.\<close>

definition np_ceil :: "real option list \<Rightarrow> real option list" where
  "np_ceil s = map (map_option (\<lambda>v. of_int \<lceil>v\<rceil>)) s"

definition clip_lower :: "real option list \<Rightarrow> real \<Rightarrow> real option list" where
  "clip_lower s lo = map (map_option (\<lambda>v. max v lo)) s"

definition clip_upper :: "real option list \<Rightarrow> real \<Rightarrow> real option list" where
  "clip_upper s hi = map (map_option (\<lambda>v. min v hi)) s"

text \<open>A float64 cell minus, and plus, an int64: the integer is converted to float64
  and the result is rounded.\<close>

definition float_minus_int :: "real option \<Rightarrow> int \<Rightarrow> real option" where
  "float_minus_int c i = map_option (\<lambda>v. float64 (v - float64 (of_int i))) c"

definition float_plus_int :: "real option \<Rightarrow> int \<Rightarrow> real option" where
  "float_plus_int c i = map_option (\<lambda>v. float64 (v + float64 (of_int i))) c"

text \<open>\<^verbatim>\<open>series - (radius - 1)\<close> and \<^verbatim>\<open>series + radius\<close> for an int64 series
  \<open>radius\<close> of the same index; \<^verbatim>\<open>radius - 1\<close> is int64.\<close>

definition minus_radius_less_one :: "real option list \<Rightarrow> int list \<Rightarrow> real option list" where
  "minus_radius_less_one s radius =
     map (\<lambda>(c, R). float_minus_int c (wrap64 (R - 1))) (zip s radius)"

definition plus_radius :: "real option list \<Rightarrow> int list \<Rightarrow> real option list" where
  "plus_radius s radius = map (\<lambda>(c, R). float_plus_int c R) (zip s radius)"

subsection \<open>Images (one slice of the volume: a 3-d array)\<close>

record 'a image =
  n_z :: nat
  n_y :: nat
  n_x :: nat
  voxel :: "nat \<Rightarrow> nat \<Rightarrow> nat \<Rightarrow> 'a"

definition image_shape :: "'a image \<Rightarrow> nat list" where
  "image_shape img = [n_z img, n_y img, n_x img]"

text \<open>
  Python's \<^verbatim>\<open>a[start:stop]\<close> on an axis of length \<open>n\<close>: a negative bound counts
  from the end, and both bounds are clamped to the axis; nothing raises.
\<close>

definition slice_bound :: "nat \<Rightarrow> int \<Rightarrow> nat" where
  "slice_bound n i = (if i < 0 then nat (max (i + int n) 0) else min (nat i) n)"

definition slice_indices :: "nat \<Rightarrow> int \<Rightarrow> int \<Rightarrow> nat list" where
  "slice_indices n start stop = [slice_bound n start ..< slice_bound n stop]"

record box =
  z_min :: int
  z_max :: int
  y_min :: int
  y_max :: int
  x_min :: int
  x_max :: int

definition crop :: "'a image \<Rightarrow> box \<Rightarrow> 'a list list list" where
  "crop img b =
     map (\<lambda>k. map (\<lambda>j. map (\<lambda>i. voxel img k j i)
                  (slice_indices (n_x img) (x_min b) (x_max b)))
            (slice_indices (n_y img) (y_min b) (y_max b)))
       (slice_indices (n_z img) (z_min b) (z_max b))"

subsection \<open>measure_spot_intensity\<close>

text \<open>The radius series, int64: rounded up plus one for a radius of gyration, truncated
  otherwise.\<close>

definition box_radius :: "bool \<Rightarrow> real option list \<Rightarrow> error + int list" where
  "box_radius radius_is_gyration s =
     (if radius_is_gyration
      then (case series_astype_int (np_ceil s) of
              Inl e \<Rightarrow> Inl e
            | Inr is \<Rightarrow> Inr (map (\<lambda>i. wrap64 (i + 1)) is))
      else series_astype_int s)"

text \<open>
  The loop over \<^verbatim>\<open>zip(['z', 'y', 'x'], image.shape)\<close>. It writes into the caller's
  table; the table is returned with the outcome, also when a lookup raises.
\<close>

fun add_bounds :: "(string \<times> nat) list \<Rightarrow> int list \<Rightarrow> dataframe \<Rightarrow> error option \<times> dataframe" where
  "add_bounds [] radius df = (None, df)"
| "add_bounds ((v, max_size) # rest) radius df =
     (case getitem df v of
        Inl e \<Rightarrow> (Some e, df)
      | Inr s \<Rightarrow>
          (let df1 = setitem df (v @ ''_min'')
                       (clip_lower (minus_radius_less_one s radius) 0)
           in case getitem df1 v of
                Inl e \<Rightarrow> (Some e, df1)
              | Inr s1 \<Rightarrow>
                  add_bounds rest radius
                    (setitem df1 (v @ ''_max'')
                       (clip_upper (plus_radius s1 radius) (float64 (of_nat max_size))))))"

text \<open>\<^verbatim>\<open>.apply(fn, axis=1)\<close>: \<open>fn\<close> on each row in order; the first exception ends it.\<close>

fun apply_rows :: "('r \<Rightarrow> error + 'b) \<Rightarrow> 'r list \<Rightarrow> error + 'b list" where
  "apply_rows f [] = Inr []"
| "apply_rows f (r # rs) =
     (case f r of
        Inl e \<Rightarrow> Inl e
      | Inr v \<Rightarrow> (case apply_rows f rs of Inl e \<Rightarrow> Inl e | Inr vs \<Rightarrow> Inr (v # vs)))"

text \<open>\<^verbatim>\<open>df[['z_min', 'z_max', 'y_min', 'y_max', 'x_min', 'x_max']].astype(int)\<close>,
  as the list of its rows: KeyError for a missing label, ValueError for a NaN cell.\<close>

definition box_columns :: "string list" where
  "box_columns = [''z_min'', ''z_max'', ''y_min'', ''y_max'', ''x_min'', ''x_max'']"

definition row_box :: "row \<Rightarrow> error + box" where
  "row_box rw =
     (case (rw ''z_min'', rw ''z_max'', rw ''y_min'', rw ''y_max'', rw ''x_min'', rw ''x_max'') of
        (Some a, Some b, Some c, Some d, Some e, Some f) \<Rightarrow>
          Inr \<lparr>z_min = astype_int a, z_max = astype_int b,
               y_min = astype_int c, y_max = astype_int d,
               x_min = astype_int e, x_max = astype_int f\<rparr>
      | _ \<Rightarrow> Inl (ValueError nan_message))"

definition select_boxes :: "dataframe \<Rightarrow> error + box list" where
  "select_boxes df =
     (case filter (\<lambda>c. c \<notin> columns df) box_columns of
        m # _ \<Rightarrow> Inl (KeyError m)
      | [] \<Rightarrow> apply_rows row_box (rows df))"

definition measure_spot_intensity ::
  "'a image \<Rightarrow> dataframe \<Rightarrow> ('a list list list \<Rightarrow> string + 'b) \<Rightarrow> bool
     \<Rightarrow> (error + 'b list) \<times> dataframe" where
  "measure_spot_intensity img spots measurement_function radius_is_gyration =
     (case getitem spots ''radius'' of
        Inl e \<Rightarrow> (Inl e, spots)
      | Inr s \<Rightarrow>
          (case box_radius radius_is_gyration s of
             Inl e \<Rightarrow> (Inl e, spots)
           | Inr radius \<Rightarrow>
               (case add_bounds (zip [''z'', ''y'', ''x''] (image_shape img)) radius spots of
                  (Some e, spots') \<Rightarrow> (Inl e, spots')
                | (None, spots') \<Rightarrow>
                    (case select_boxes spots' of
                       Inl e \<Rightarrow> (Inl e, spots')
                     | Inr boxes \<Rightarrow>
                         (apply_rows (\<lambda>b. external (measurement_function (crop img b))) boxes,
                          spots')))))"

subsection \<open>The intensity table\<close>

text \<open>
  A tensor indexed by (spot, channel, round) with its sizes and the per-spot side
  table. An entry is \<open>None\<close> while unset (NaN).
\<close>

record 'b intensity_table =
  features :: dataframe
  n_c :: nat
  n_r :: nat
  tensor :: "'b option list list list"

text \<open>
  Modelled from the spec: \<^verbatim>\<open>IntensityTable.empty_intensity_table\<close> is not among the
  sources. The spec has the table "created empty with shape derived from spot count
  x n_channel x n_round", every entry unset.
\<close>

definition empty_intensity_table :: "dataframe \<Rightarrow> nat \<Rightarrow> nat \<Rightarrow> 'b intensity_table" where
  "empty_intensity_table spot_attributes n_ch n_round =
     \<lparr>features = spot_attributes, n_c = n_ch, n_r = n_round,
      tensor = replicate (length (rows spot_attributes))
                 (replicate n_ch (replicate n_round None))\<rparr>"

text \<open>\<^verbatim>\<open>intensity_table[:, c, r] = series\<close>.\<close>

definition set_slice ::
  "'b intensity_table \<Rightarrow> nat \<Rightarrow> nat \<Rightarrow> 'b list \<Rightarrow> error + 'b intensity_table" where
  "set_slice it c r vals =
     (if \<not> (c < n_c it \<and> r < n_r it) then Inl (IndexError ''index out of bounds'')
      else if length vals \<noteq> length (tensor it) then Inl (ValueError ''shape mismatch'')
      else Inr (it\<lparr>tensor :=
                  map (\<lambda>(m, v). m[c := (m ! c)[r := Some v]]) (zip (tensor it) vals)\<rparr>))"

text \<open>\<^verbatim>\<open>intensity_table[i, c, r] = value\<close>; a NaN value leaves the entry unset.\<close>

definition set_entry ::
  "'b intensity_table \<Rightarrow> nat \<Rightarrow> nat \<Rightarrow> nat \<Rightarrow> 'b option \<Rightarrow> error + 'b intensity_table" where
  "set_entry it i c r v =
     (if i < length (tensor it) \<and> c < n_c it \<and> r < n_r it
      then Inr (it\<lparr>tensor :=
                  (tensor it)[i := (tensor it ! i)[c := (tensor it ! i ! c)[r := v]]]\<rparr>)
      else Inl (IndexError ''index out of bounds''))"

subsection \<open>The image stack (external: shape, slices, projection, transform)\<close>

datatype axes = CH | ROUND | ZPLANE | Y | X

fun axis_name :: "axes \<Rightarrow> string" where
  "axis_name CH = ''c''"
| "axis_name ROUND = ''r''"
| "axis_name ZPLANE = ''z''"
| "axis_name Y = ''y''"
| "axis_name X = ''x''"

type_synonym inds = "axes \<rightharpoonup> nat"

record 'a imagestack =
  shape_ch :: nat
  shape_round :: nat
  get_slice :: "nat \<Rightarrow> nat \<Rightarrow> 'a image"
  tiles_aligned :: bool
  max_proj_squeezed :: "string + 'a image"
  transform :: "('a image \<Rightarrow> string + dataframe) \<Rightarrow> nat option
                  \<Rightarrow> string + (dataframe \<times> inds) list"

subsection \<open>measure_spot_intensities\<close>

text \<open>\<^verbatim>\<open>product(range(n_ch), range(n_round))\<close>.\<close>

definition indices :: "nat \<Rightarrow> nat \<Rightarrow> (nat \<times> nat) list" where
  "indices n_ch n_round = List.product [0..<n_ch] [0..<n_round]"

text \<open>The filling loop. Each pass measures the same table, which the measurement
  writes into; the table is returned with the outcome.\<close>

fun fill_intensity_table ::
  "'a imagestack \<Rightarrow> ('a list list list \<Rightarrow> string + 'b) \<Rightarrow> bool \<Rightarrow> (nat \<times> nat) list
     \<Rightarrow> dataframe \<Rightarrow> 'b intensity_table \<Rightarrow> (error + 'b intensity_table) \<times> dataframe" where
  "fill_intensity_table data_image measurement_function radius_is_gyration [] spots it =
     (Inr it, spots)"
| "fill_intensity_table data_image measurement_function radius_is_gyration ((c, r) # rest) spots it =
     (case measure_spot_intensity (get_slice data_image c r) spots
             measurement_function radius_is_gyration of
        (Inl e, spots') \<Rightarrow> (Inl e, spots')
      | (Inr blob_intensities, spots') \<Rightarrow>
          (case set_slice it c r blob_intensities of
             Inl e \<Rightarrow> (Inl e, spots')
           | Inr it' \<Rightarrow>
               fill_intensity_table data_image measurement_function radius_is_gyration
                 rest spots' it'))"

definition measure_spot_intensities ::
  "'a imagestack \<Rightarrow> dataframe \<Rightarrow> ('a list list list \<Rightarrow> string + 'b) \<Rightarrow> bool
     \<Rightarrow> (error + 'b intensity_table) \<times> dataframe" where
  "measure_spot_intensities data_image spot_attributes measurement_function radius_is_gyration =
     (let n_ch = shape_ch data_image;
          n_round = shape_round data_image;
          intensity_table = empty_intensity_table spot_attributes n_ch n_round
      in if length (tensor intensity_table) = 0 then (Inr intensity_table, spot_attributes)
         else fill_intensity_table data_image measurement_function radius_is_gyration
                (indices n_ch n_round) spot_attributes intensity_table)"

subsection \<open>concatenate_spot_attributes_to_intensities\<close>

text \<open>Python's \<^verbatim>\<open>max\<close> over a generator: ValueError on an empty one.\<close>

fun py_max :: "nat list \<Rightarrow> error + nat" where
  "py_max [] = Inl (ValueError ''max() arg is an empty sequence'')"
| "py_max (x # xs) = Inr (fold max xs x)"

text \<open>\<^verbatim>\<open>inds[axis] for _, inds in spot_attributes\<close>: KeyError for a missing axis.\<close>

definition axis_indices :: "axes \<Rightarrow> (dataframe \<times> inds) list \<Rightarrow> error + nat list" where
  "axis_indices ax spot_attributes =
     apply_rows (\<lambda>(sa, inds). case inds ax of
                                 None \<Rightarrow> Inl (KeyError (axis_name ax))
                               | Some i \<Rightarrow> Inr i) spot_attributes"

text \<open>\<^verbatim>\<open>pd.concat(frames, sort=True)\<close>: the rows in order, under the union of the
  labels; a cell of a label its frame did not have is NaN.\<close>

definition pd_concat :: "dataframe list \<Rightarrow> dataframe" where
  "pd_concat frames =
     \<lparr>columns = \<Union> (set (map columns frames)), rows = concat (map rows frames)\<rparr>"

text \<open>\<^verbatim>\<open>df.drop(labels, axis=1)\<close>: KeyError when a label is not a column.\<close>

definition drop_columns :: "dataframe \<Rightarrow> string list \<Rightarrow> error + dataframe" where
  "drop_columns df labels =
     (case filter (\<lambda>c. c \<notin> columns df) labels of
        m # _ \<Rightarrow> Inl (KeyError m)
      | [] \<Rightarrow> Inr \<lparr>columns = columns df - set labels,
                   rows = map (\<lambda>rw. rw |` (- set labels)) (rows df)\<rparr>)"

text \<open>The inner loop over \<^verbatim>\<open>attrs.data.iterrows()\<close>, with the running index \<open>i\<close>.
  The assignment evaluates \<^verbatim>\<open>row['intensity']\<close> first, then the indices of its target.\<close>

fun fill_rows ::
  "string set \<Rightarrow> row list \<Rightarrow> inds \<Rightarrow> nat \<Rightarrow> real intensity_table
     \<Rightarrow> error + (real intensity_table \<times> nat)" where
  "fill_rows cols [] inds i it = Inr (it, i)"
| "fill_rows cols (rw # rws) inds i it =
     (if ''intensity'' \<notin> cols then Inl (KeyError ''intensity'')
      else
     (case inds CH of None \<Rightarrow> Inl (KeyError (axis_name CH)) | Some c \<Rightarrow>
     (case inds ROUND of None \<Rightarrow> Inl (KeyError (axis_name ROUND)) | Some r \<Rightarrow>
     (case set_entry it i c r (rw ''intensity'') of
        Inl e \<Rightarrow> Inl e
      | Inr it' \<Rightarrow> fill_rows cols rws inds (i + 1) it'))))"

text \<open>The outer loop over the pairs.\<close>

fun fill_pairs ::
  "(dataframe \<times> inds) list \<Rightarrow> nat \<Rightarrow> real intensity_table \<Rightarrow> error + real intensity_table" where
  "fill_pairs [] i it = Inr it"
| "fill_pairs ((attrs, inds) # rest) i it =
     (case fill_rows (columns attrs) (rows attrs) inds i it of
        Inl e \<Rightarrow> Inl e
      | Inr (it', i') \<Rightarrow> fill_pairs rest i' it')"

text \<open>The function. \<^verbatim>\<open>SpotAttributes(features_coordinates)\<close> wraps the table of
  features; the tables concatenated are SpotAttributes tables already, and the two
  labels dropped are not among the labels it requires.\<close>

definition concatenate_spot_attributes_to_intensities ::
  "(dataframe \<times> inds) list \<Rightarrow> error + real intensity_table" where
  "concatenate_spot_attributes_to_intensities spot_attributes =
     (case axis_indices CH spot_attributes of Inl e \<Rightarrow> Inl e | Inr chs \<Rightarrow>
     (case py_max chs of Inl e \<Rightarrow> Inl e | Inr max_ch \<Rightarrow>
     (case axis_indices ROUND spot_attributes of Inl e \<Rightarrow> Inl e | Inr rounds \<Rightarrow>
     (case py_max rounds of Inl e \<Rightarrow> Inl e | Inr max_round \<Rightarrow>
     (let n_ch = max_ch + 1;
          n_round = max_round + 1;
          all_spots = pd_concat (map fst spot_attributes)
      in case drop_columns all_spots [''spot_id'', ''intensity''] of
           Inl e \<Rightarrow> Inl e
         | Inr features_coordinates \<Rightarrow>
             fill_pairs spot_attributes 0
               (empty_intensity_table features_coordinates n_ch n_round))))))"

subsection \<open>detect_spots\<close>

definition conflict_message :: string where
  "conflict_message =
     ''Please pass only one of reference_image and reference_image_from_max_projection''"

definition alignment_message :: string where
  "alignment_message =
     ''Detected tiles in the image stack that correspond to different positions in coordinate space. Please make sure your data arepre aligned, as per our spaceTx file format specification''"

definition detect_spots ::
  "'a imagestack \<Rightarrow> ('a image \<Rightarrow> string + dataframe) \<Rightarrow> 'a image option \<Rightarrow> bool
     \<Rightarrow> ('a list list list \<Rightarrow> string + real) \<Rightarrow> bool \<Rightarrow> nat option
     \<Rightarrow> ('a imagestack \<Rightarrow> real intensity_table \<Rightarrow> string + real intensity_table)
     \<Rightarrow> error + real intensity_table" where
  "detect_spots data_stack spot_finding_method reference_image
       reference_image_from_max_projection measurement_function radius_is_gyration
       n_processes transfer_physical_coords =
     (if reference_image \<noteq> None \<and> reference_image_from_max_projection
      then Inl (ValueError conflict_message)
      else
        (case (if reference_image_from_max_projection
               then map_sum id Some (external (max_proj_squeezed data_stack))
               else Inr reference_image) of
           Inl e \<Rightarrow> Inl e
         | Inr reference \<Rightarrow>
             (case (case reference of
                      Some ref \<Rightarrow>
                        (if \<not> tiles_aligned data_stack then Inl (ValueError alignment_message)
                         else (case external (spot_finding_method ref) of
                                 Inl e \<Rightarrow> Inl e
                               | Inr reference_spot_locations \<Rightarrow>
                                   fst (measure_spot_intensities data_stack
                                          reference_spot_locations measurement_function
                                          radius_is_gyration)))
                    | None \<Rightarrow>
                        (case external (transform data_stack spot_finding_method n_processes) of
                           Inl e \<Rightarrow> Inl e
                         | Inr spot_attributes_list \<Rightarrow>
                             concatenate_spot_attributes_to_intensities spot_attributes_list)) of
                Inl e \<Rightarrow> Inl e
              | Inr intensity_table \<Rightarrow>
                  external (transfer_physical_coords data_stack intensity_table))))"

subsection \<open>FindSpotsAlgorithmBase._get_measurement_function\<close>

text \<open>The numpy namespace is a parameter: the attributes that exist, by name.\<close>

definition get_measurement_function :: "(string \<rightharpoonup> 'f) \<Rightarrow> string \<Rightarrow> error + 'f" where
  "get_measurement_function np measurement_type =
     (case np measurement_type of
        None \<Rightarrow>
          Inl (ValueError
                 (''measurement_type must be a numpy reduce function such as \"max\" or \"mean\". ''
                    @ measurement_type @ '' not found.''))
      | Some measurement_function \<Rightarrow> Inr measurement_function)"

subsection \<open>Notions used in the statements\<close>

text \<open>A table that SpotAttributes accepts and a spot finder fills: the coordinates
  and the radius are columns, and no cell of them is NaN.\<close>

definition valid_spots :: "dataframe \<Rightarrow> bool" where
  "valid_spots df =
     (''z'' \<in> columns df \<and> ''y'' \<in> columns df \<and> ''x'' \<in> columns df \<and> ''radius'' \<in> columns df
      \<and> list_all (\<lambda>rw. rw ''z'' \<noteq> None \<and> rw ''y'' \<noteq> None \<and> rw ''x'' \<noteq> None
                        \<and> rw ''radius'' \<noteq> None) (rows df))"

text \<open>The integer radius of one spot, as \<open>box_radius\<close> derives it cell by cell.\<close>

definition spot_radius :: "bool \<Rightarrow> real \<Rightarrow> int" where
  "spot_radius g r = (if g then wrap64 (astype_int (of_int \<lceil>r\<rceil>) + 1) else astype_int r)"

text \<open>The two bounds stored for a center cell and the radius \<open>R\<close>, and a row after the
  loop of \<open>add_bounds\<close> over z, y and x.\<close>

definition lower_bound :: "real option \<Rightarrow> int \<Rightarrow> real option" where
  "lower_bound c R = map_option (\<lambda>v. max v 0) (float_minus_int c (wrap64 (R - 1)))"

definition upper_bound :: "real option \<Rightarrow> int \<Rightarrow> nat \<Rightarrow> real option" where
  "upper_bound c R n = map_option (\<lambda>v. min v (float64 (of_nat n))) (float_plus_int c R)"

definition bounded_row :: "nat \<Rightarrow> nat \<Rightarrow> nat \<Rightarrow> int \<Rightarrow> row \<Rightarrow> row" where
  "bounded_row nz ny nx R rw =
     rw(''z_min'' := lower_bound (rw ''z'') R, ''z_max'' := upper_bound (rw ''z'') R nz,
        ''y_min'' := lower_bound (rw ''y'') R, ''y_max'' := upper_bound (rw ''y'') R ny,
        ''x_min'' := lower_bound (rw ''x'') R, ''x_max'' := upper_bound (rw ''x'') R nx)"

text \<open>The box \<open>fn\<close> receives for a row: the six bounds after \<^verbatim>\<open>astype(int)\<close>.\<close>

definition spot_box :: "nat \<Rightarrow> nat \<Rightarrow> nat \<Rightarrow> bool \<Rightarrow> row \<Rightarrow> box" where
  "spot_box nz ny nx g rw =
     (let R = spot_radius g (the (rw ''radius''))
      in \<lparr>z_min = astype_int (the (lower_bound (rw ''z'') R)),
          z_max = astype_int (the (upper_bound (rw ''z'') R nz)),
          y_min = astype_int (the (lower_bound (rw ''y'') R)),
          y_max = astype_int (the (upper_bound (rw ''y'') R ny)),
          x_min = astype_int (the (lower_bound (rw ''x'') R)),
          x_max = astype_int (the (upper_bound (rw ''x'') R nx))\<rparr>)"


definition box_width :: "string \<Rightarrow> 'a image \<Rightarrow> box \<Rightarrow> nat" where
  "box_width v img b =
     length (if v = ''z'' then slice_indices (n_z img) (z_min b) (z_max b)
             else if v = ''y'' then slice_indices (n_y img) (y_min b) (y_max b)
             else slice_indices (n_x img) (x_min b) (x_max b))"



text \<open>Per-slice results as the independent path has them: every table is a
  SpotAttributes table (it has the coordinate and radius columns) with the columns
  \<^verbatim>\<open>spot_id\<close> and \<^verbatim>\<open>intensity\<close> of a spot finder, and every index mapping has a
  channel and a round.\<close>

definition valid_slices :: "(dataframe \<times> inds) list \<Rightarrow> bool" where
  "valid_slices spot_attributes =
     list_all (\<lambda>(attrs, inds). ''z'' \<in> columns attrs \<and> ''y'' \<in> columns attrs
                 \<and> ''x'' \<in> columns attrs \<and> ''radius'' \<in> columns attrs
                 \<and> ''spot_id'' \<in> columns attrs \<and> ''intensity'' \<in> columns attrs
                 \<and> inds CH \<noteq> None \<and> inds ROUND \<noteq> None) spot_attributes"

text \<open>The matrix of one spot after one write into a fresh table: \<open>v\<close> at (c, r), every
  other entry unset.\<close>

definition single_entry :: "nat \<Rightarrow> nat \<Rightarrow> nat \<Rightarrow> nat \<Rightarrow> 'b option \<Rightarrow> 'b option list list" where
  "single_entry nc nr c r v =
     (replicate nc (replicate nr None))
       [c := (replicate nc (replicate nr None) ! c)[r := v]]"

subsection \<open>Example inputs\<close>

text \<open>Two reductions of numpy, as measurement functions: \<^verbatim>\<open>np.max\<close> raises on an
  empty array, \<^verbatim>\<open>np.sum\<close> never raises.\<close>

definition np_max :: "real list list list \<Rightarrow> string + real" where
  "np_max d =
     (case concat (concat d) of
        [] \<Rightarrow> Inl ''zero-size array to reduction operation maximum which has no identity''
      | v # vs \<Rightarrow> Inr (fold max vs v))"

definition np_sum :: "real list list list \<Rightarrow> string + real" where
  "np_sum d = Inr (sum_list (concat (concat d)))"

definition spot :: "real \<Rightarrow> real \<Rightarrow> real \<Rightarrow> real \<Rightarrow> row" where
  "spot z y x r = [''z'' \<mapsto> z, ''y'' \<mapsto> y, ''x'' \<mapsto> x, ''radius'' \<mapsto> r]"

definition example_image :: "real image" where
  "example_image = \<lparr>n_z = 10, n_y = 10, n_x = 10, voxel = (\<lambda>k j i. of_nat (k + j + i))\<rparr>"

text \<open>One spot at the origin with radius 5.\<close>

definition origin_spots :: dataframe where
  "origin_spots = \<lparr>columns = {''z'', ''y'', ''x'', ''radius''}, rows = [spot 0 0 0 5]\<rparr>"


text \<open>One spot whose z center is just below 4, with radius 2, and one spot with a
  radius beyond int64.\<close>

definition fractional_spots :: dataframe where
  "fractional_spots =
     \<lparr>columns = {''z'', ''y'', ''x'', ''radius''}, rows = [spot (4 - 1 / 2 ^ 51) 5 5 2]\<rparr>"

definition huge_radius_spots :: dataframe where
  "huge_radius_spots =
     \<lparr>columns = {''z'', ''y'', ''x'', ''radius''}, rows = [spot 5 5 5 (10 ^ 19)]\<rparr>"

text \<open>One spot in the middle of the example image, with radius 2.\<close>

definition centre_spots :: dataframe where
  "centre_spots = \<lparr>columns = {''z'', ''y'', ''x'', ''radius''}, rows = [spot 5 5 5 2]\<rparr>"

text \<open>An image stack of two channels and three rounds, and a table with no spot.\<close>

definition example_stack :: "real imagestack" where
  "example_stack =
     \<lparr>shape_ch = 2, shape_round = 3,
      get_slice = (\<lambda>c r. \<lparr>n_z = 10, n_y = 10, n_x = 10,
                           voxel = (\<lambda>k j i. of_nat (c + r + k + j + i))\<rparr>),
      tiles_aligned = True,
      max_proj_squeezed = Inr example_image,
      transform = (\<lambda>f n. Inr [])\<rparr>"

definition no_spots :: dataframe where
  "no_spots = \<lparr>columns = {''z'', ''y'', ''x'', ''radius''}, rows = []\<rparr>"

text \<open>Per-slice results of two slices: two spots found in (channel 0, round 0), and one
  spot found in (channel 1, round 2) at the place of the first.\<close>

definition found :: "real \<Rightarrow> real \<Rightarrow> real \<Rightarrow> real \<Rightarrow> real \<Rightarrow> real \<Rightarrow> row" where
  "found z y x r spot_id intensity =
     (spot z y x r)(''spot_id'' \<mapsto> spot_id, ''intensity'' \<mapsto> intensity)"

definition example_slices :: "(dataframe \<times> inds) list" where
  "example_slices =
     [(\<lparr>columns = {''z'', ''y'', ''x'', ''radius'', ''spot_id'', ''intensity''},
        rows = [found 1 2 3 1 0 10, found 4 5 6 1 1 20]\<rparr>, [CH \<mapsto> 0, ROUND \<mapsto> 0]),
      (\<lparr>columns = {''z'', ''y'', ''x'', ''radius'', ''spot_id'', ''intensity''},
        rows = [found 1 2 3 1 0 30]\<rparr>, [CH \<mapsto> 1, ROUND \<mapsto> 2])]"

text \<open>A spot finder that finds the example spot, and a coordinate transfer that leaves
  the table as it is.\<close>

definition example_finder :: "real image \<Rightarrow> string + dataframe" where
  "example_finder img = Inr centre_spots"

definition example_transfer :: "real imagestack \<Rightarrow> real intensity_table \<Rightarrow> string + real intensity_table" where
  "example_transfer data_stack intensity_table = Inr intensity_table"

section \<open>Properties\<close>

subsection \<open>Machine numbers\<close>

lemma round_half_even_of_int: "round_half_even (of_int m) = m"
  by (simp add: round_half_even_def)

lemma float64_of_int:
  assumes "\<bar>k\<bar> < 2 ^ 53"
  shows "float64 (of_int k) = of_int k"
proof (cases "k = 0")
  case True
  then show ?thesis by (simp add: float64_def)
next
  case False
  define e where "e = bitlen \<bar>k\<bar> - 1"
  have pos: "0 < \<bar>k\<bar>" using False by simp
  have b: "2 ^ nat e \<le> \<bar>k\<bar>"
    using bitlen_bounds [OF pos] by (simp add: e_def)
  have e0: "0 \<le> e"
    using pos by (simp add: e_def bitlen_alt_def)
  have lt: "(2::int) ^ nat e < 2 ^ 53"
    using b assms by linarith
  have "nat e < 53"
    by (rule power_less_imp_less_exp [OF _ lt]) simp
  then have e52: "e \<le> 52" by linarith
  define n where "n = nat (52 - e)"
  have be: "binary_exponent \<bar>real_of_int k\<bar> = e"
  proof -
    have r: "\<bar>real_of_int k\<bar> = real_of_int \<bar>k\<bar>" by simp
    have "1 \<le> \<bar>k\<bar>" using pos by linarith
    then have "1 \<le> real_of_int \<bar>k\<bar>" by (simp only: of_int_1_le_iff)
    then have "1 \<le> \<bar>real_of_int k\<bar>" by (simp only: r)
    moreover have "\<lfloor>\<bar>real_of_int k\<bar>\<rfloor> = \<bar>k\<bar>"
      by (simp only: r floor_of_int)
    ultimately show ?thesis by (simp add: binary_exponent_def e_def)
  qed
  have k: "max e (- 1022) - 52 = - int n"
    using e0 e52 by (simp add: n_def)
  have sc: "real_of_int k * 2 powi (int n) = of_int (k * 2 ^ n)"
    by (simp add: power_int_def)
  have "float64 (of_int k) = of_int (round_half_even (real_of_int k * 2 powi (int n))) * 2 powi (- int n)"
    using False by (simp add: float64_def be k Let_def)
  also have "\<dots> = of_int (k * 2 ^ n) * 2 powi (- int n)"
    by (simp only: sc round_half_even_of_int)
  also have "\<dots> = of_int k"
    by (simp add: power_int_def field_simps)
  finally show ?thesis .
qed

lemma float64_of_nat: "n < 2 ^ 53 \<Longrightarrow> float64 (of_nat n) = of_nat n"
  using float64_of_int [of "int n"] by simp

lemma wrap64_id: "- (2 ^ 63) \<le> i \<Longrightarrow> i < 2 ^ 63 \<Longrightarrow> wrap64 i = i"
  by (simp add: wrap64_def)

lemma astype_int_of_int: "- (2 ^ 63) \<le> k \<Longrightarrow> k < 2 ^ 63 \<Longrightarrow> astype_int (of_int k) = k"
  by (simp add: astype_int_def)

lemma astype_int_floor: "0 \<le> v \<Longrightarrow> v < 2 ^ 63 \<Longrightarrow> astype_int v = \<lfloor>v\<rfloor>"
  by (simp add: astype_int_def Let_def floor_less_iff)

lemma float64_numeral:
  "(numeral n :: int) < 2 ^ 53 \<Longrightarrow> float64 (numeral n) = numeral n"
  using float64_of_int [of "numeral n"] by simp

lemma float64_neg_numeral:
  "(numeral n :: int) < 2 ^ 53 \<Longrightarrow> float64 (- numeral n) = - numeral n"
  using float64_of_int [of "- numeral n"] by simp

lemma float64_zero: "float64 0 = 0"
  by (simp add: float64_def)

lemma float64_one: "float64 1 = 1"
  using float64_of_int [of 1] by simp

lemma float64_neg_one: "float64 (- 1) = - 1"
  using float64_of_int [of "- 1"] by simp

lemmas float64_small = float64_numeral float64_neg_numeral float64_zero float64_one float64_neg_one

lemma astype_int_nonneg: "0 \<le> a \<Longrightarrow> a < 2 ^ 63 \<Longrightarrow> 0 \<le> astype_int a"
  by (simp add: astype_int_floor)

lemma bounds_exact:
  assumes "\<bar>k\<bar> \<le> 2 ^ 51" and "\<bar>R\<bar> \<le> 2 ^ 51" and "n < 2 ^ 53"
  shows "lower_bound (Some (of_int k)) R = Some (of_int (max (k - (R - 1)) 0))"
    and "upper_bound (Some (of_int k)) R n = Some (of_int (min (k + R) (int n)))"
    and "astype_int (the (lower_bound (Some (of_int k)) R)) = max (k - (R - 1)) 0"
    and "astype_int (the (upper_bound (Some (of_int k)) R n)) = min (k + R) (int n)"
proof -
  have w: "wrap64 (R - 1) = R - 1"
    using assms(2) by (intro wrap64_id) simp_all
  have f1: "float64 (of_int (R - 1)) = of_int (R - 1)"
    using assms(2) by (intro float64_of_int) simp
  have f2: "float64 (of_int R) = of_int R"
    using assms(2) by (intro float64_of_int) simp
  have f3: "float64 (of_int (k - (R - 1))) = of_int (k - (R - 1))"
    using assms(1,2) by (intro float64_of_int) simp
  have f4: "float64 (of_int (k + R)) = of_int (k + R)"
    using assms(1,2) by (intro float64_of_int) simp
  have f5: "float64 (of_nat n) = of_nat n"
    using assms(3) by (rule float64_of_nat)
  have s1: "real_of_int k - real_of_int (R - 1) = real_of_int (k - (R - 1))" by simp
  have s2: "real_of_int k + real_of_int R = real_of_int (k + R)" by simp
  have m1: "max (real_of_int (k - (R - 1))) 0 = real_of_int (max (k - (R - 1)) 0)"
    by (simp add: max_def)
  have m2: "min (real_of_int (k + R)) (real n) = real_of_int (min (k + R) (int n))"
    by (simp add: min_def)
  show l: "lower_bound (Some (of_int k)) R = Some (of_int (max (k - (R - 1)) 0))"
    by (simp only: lower_bound_def float_minus_int_def option.map w f1 s1 f3 m1)
  show u: "upper_bound (Some (of_int k)) R n = Some (of_int (min (k + R) (int n)))"
    by (simp only: upper_bound_def float_plus_int_def option.map f2 s2 f4 f5 m2)
  show "astype_int (the (lower_bound (Some (of_int k)) R)) = max (k - (R - 1)) 0"
    unfolding l option.sel using assms(1,2) by (intro astype_int_of_int) simp_all
  show "astype_int (the (upper_bound (Some (of_int k)) R n)) = min (k + R) (int n)"
    unfolding u option.sel using assms by (intro astype_int_of_int) simp_all
qed

subsection \<open>Series, rows and the loop over the axes\<close>

lemma zip_map_zip:
  "zip (map f (zip xs ys)) ys = map (\<lambda>p. (f p, snd p)) (zip xs ys)"
proof (induction xs arbitrary: ys)
  case Nil
  show ?case by simp
next
  case (Cons x xs)
  show ?case by (cases ys) (simp_all add: Cons.IH)
qed

lemma zip_map_self:
  "zip xs (map (\<lambda>(c, R). F c R) (zip (map g xs) ys)) = map (\<lambda>(x, y). (x, F (g x) y)) (zip xs ys)"
proof (induction xs arbitrary: ys)
  case Nil
  show ?case by simp
next
  case (Cons x xs)
  show ?case by (cases ys) (simp_all add: Cons.IH)
qed

lemma set_lower_bound:
  "setitem df c (clip_lower (minus_radius_less_one (map (\<lambda>rw. rw v) (rows df)) radius) 0) =
     \<lparr>columns = insert c (columns df),
      rows = map (\<lambda>(rw, R). rw(c := lower_bound (rw v) R)) (zip (rows df) radius)\<rparr>"
proof -
  have "clip_lower (minus_radius_less_one (map (\<lambda>rw. rw v) (rows df)) radius) 0 =
        map (\<lambda>(cell, R). lower_bound cell R) (zip (map (\<lambda>rw. rw v) (rows df)) radius)"
    by (simp add: clip_lower_def minus_radius_less_one_def lower_bound_def case_prod_beta comp_def)
  then show ?thesis
    by (simp add: setitem_def zip_map_self case_prod_beta comp_def)
qed

lemma set_upper_bound:
  "setitem df c
     (clip_upper (plus_radius (map (\<lambda>rw. rw v) (rows df)) radius) (float64 (of_nat n))) =
     \<lparr>columns = insert c (columns df),
      rows = map (\<lambda>(rw, R). rw(c := upper_bound (rw v) R n)) (zip (rows df) radius)\<rparr>"
proof -
  have "clip_upper (plus_radius (map (\<lambda>rw. rw v) (rows df)) radius) (float64 (of_nat n)) =
        map (\<lambda>(cell, R). upper_bound cell R n) (zip (map (\<lambda>rw. rw v) (rows df)) radius)"
    by (simp add: clip_upper_def plus_radius_def upper_bound_def case_prod_beta comp_def)
  then show ?thesis
    by (simp add: setitem_def zip_map_self case_prod_beta comp_def)
qed

lemma add_bounds_step:
  assumes "v \<in> columns df"
  shows "add_bounds ((v, n) # rest) radius df =
           add_bounds rest radius
             \<lparr>columns = insert (v @ ''_max'') (insert (v @ ''_min'') (columns df)),
              rows = map (\<lambda>(rw, R).
                            rw(v @ ''_min'' := lower_bound (rw v) R,
                               v @ ''_max'' := upper_bound (rw v) R n))
                       (zip (rows df) radius)\<rparr>"
proof -
  let ?df1 = "setitem df (v @ ''_min'')
                (clip_lower (minus_radius_less_one (map (\<lambda>rw. rw v) (rows df)) radius) 0)"
  have g: "getitem df v = Inr (map (\<lambda>rw. rw v) (rows df))"
    using assms by (simp add: getitem_def)
  have c1: "v \<in> columns ?df1"
    using assms by (simp add: setitem_def)
  have g1: "getitem ?df1 v = Inr (map (\<lambda>rw. rw v) (rows ?df1))"
    using c1 by (simp add: getitem_def)
  have r1: "rows ?df1 = map (\<lambda>(rw, R). rw(v @ ''_min'' := lower_bound (rw v) R))
               (zip (rows df) radius)"
    by (simp add: set_lower_bound)
  have "setitem ?df1 (v @ ''_max'')
           (clip_upper (plus_radius (map (\<lambda>rw. rw v) (rows ?df1)) radius)
              (float64 (of_nat n))) =
        \<lparr>columns = insert (v @ ''_max'') (insert (v @ ''_min'') (columns df)),
              rows = map (\<lambda>(rw, R).
                            rw(v @ ''_min'' := lower_bound (rw v) R,
                               v @ ''_max'' := upper_bound (rw v) R n))
                       (zip (rows df) radius)\<rparr>"
    apply (subst set_upper_bound)
    apply (simp add: r1 zip_map_zip case_prod_beta comp_def)
    apply (simp add: set_lower_bound)
    done
  then show ?thesis
    using g g1 by (simp add: Let_def)
qed

lemma add_bounds_zyx:
  assumes "''z'' \<in> columns df" "''y'' \<in> columns df" "''x'' \<in> columns df"
  shows "add_bounds [(''z'', nz), (''y'', ny), (''x'', nx)] radius df =
           (None, \<lparr>columns = columns df \<union> set box_columns,
                   rows = map (\<lambda>(rw, R). bounded_row nz ny nx R rw) (zip (rows df) radius)\<rparr>)"
  using assms
  apply (subst add_bounds_step, simp)
  apply (subst add_bounds_step, simp)
  apply (subst add_bounds_step, simp)
  apply (simp add: zip_map_zip case_prod_beta comp_def box_columns_def)
  apply (rule conjI)
   apply auto[1]
  apply (simp add: bounded_row_def)
  done

lemma series_astype_int_defined:
  "list_all (\<lambda>c. c \<noteq> None) s \<Longrightarrow> series_astype_int s = Inr (map (\<lambda>c. astype_int (the c)) s)"
  by (induction s rule: series_astype_int.induct) simp_all

lemma series_astype_int_length:
  "series_astype_int s = Inr is \<Longrightarrow> length is = length s"
  by (induction s arbitrary: "is" rule: series_astype_int.induct) (auto split: sum.splits)

lemma series_astype_int_map:
  "(\<And>x. x \<in> set xs \<Longrightarrow> f x \<noteq> None) \<Longrightarrow>
   series_astype_int (map f xs) = Inr (map (\<lambda>x. astype_int (the (f x))) xs)"
proof (induction xs)
  case Nil
  show ?case by simp
next
  case (Cons a xs)
  from Cons.prems obtain y where "f a = Some y" by fastforce
  moreover have "series_astype_int (map f xs) = Inr (map (\<lambda>x. astype_int (the (f x))) xs)"
    using Cons.prems by (intro Cons.IH) simp
  ultimately show ?case by simp
qed

lemma box_radius_defined:
  assumes "list_all (\<lambda>rw. rw ''radius'' \<noteq> None) rws"
  shows "box_radius g (map (\<lambda>rw. rw ''radius'') rws) =
           Inr (map (\<lambda>rw. spot_radius g (the (rw ''radius''))) rws)"
proof (cases g)
  case True
  have "series_astype_int (map (\<lambda>rw. map_option (\<lambda>v. real_of_int \<lceil>v\<rceil>) (rw ''radius'')) rws) =
          Inr (map (\<lambda>rw. astype_int (the (map_option (\<lambda>v. real_of_int \<lceil>v\<rceil>) (rw ''radius'')))) rws)"
    using assms by (intro series_astype_int_map) (auto simp: list_all_iff)
  also have "\<dots> = Inr (map (\<lambda>rw. astype_int (of_int \<lceil>the (rw ''radius'')\<rceil>)) rws)"
    using assms by (auto simp: list_all_iff option.map_sel)
  finally show ?thesis
    using True by (simp add: box_radius_def np_ceil_def comp_def spot_radius_def)
next
  case False
  have "series_astype_int (map (\<lambda>rw. rw ''radius'') rws) =
          Inr (map (\<lambda>rw. astype_int (the (rw ''radius''))) rws)"
    using assms by (intro series_astype_int_map) (auto simp: list_all_iff)
  then show ?thesis
    using False by (simp add: box_radius_def spot_radius_def)
qed

lemma box_radius_length:
  "box_radius g s = Inr radius \<Longrightarrow> length radius = length s"
  by (auto simp: box_radius_def np_ceil_def split: if_splits sum.splits dest: series_astype_int_length)

lemma zip_map_same: "zip xs (map f xs) = map (\<lambda>x. (x, f x)) xs"
  by (induction xs) simp_all

lemma apply_rows_total:
  "(\<And>x. x \<in> set xs \<Longrightarrow> f x = Inr (h x)) \<Longrightarrow> apply_rows f xs = Inr (map h xs)"
  by (induction xs) simp_all

lemma apply_rows_map: "apply_rows f (map k xs) = apply_rows (\<lambda>x. f (k x)) xs"
  by (induction xs) (simp_all split: sum.splits)

lemma apply_rows_error:
  "apply_rows f xs = Inl e \<Longrightarrow> \<exists>x \<in> set xs. f x = Inl e"
  by (induction xs) (auto split: sum.splits)

lemma apply_rows_length:
  "apply_rows f xs = Inr ys \<Longrightarrow> length ys = length xs"
  by (induction xs arbitrary: ys) (auto split: sum.splits)

lemma row_box_bounded:
  assumes "rw ''z'' \<noteq> None" "rw ''y'' \<noteq> None" "rw ''x'' \<noteq> None"
  shows "row_box (bounded_row nz ny nx (spot_radius g (the (rw ''radius''))) rw) =
           Inr (spot_box nz ny nx g rw)"
  using assms
  by (auto simp: row_box_def bounded_row_def spot_box_def Let_def lower_bound_def
      upper_bound_def float_minus_int_def float_plus_int_def)

lemma measure_spot_intensity_valid:
  assumes "valid_spots spots"
  shows "measure_spot_intensity img spots mf g =
           (apply_rows (\<lambda>b. external (mf (crop img b)))
              (map (spot_box (n_z img) (n_y img) (n_x img) g) (rows spots)),
            \<lparr>columns = columns spots \<union> set box_columns,
             rows = map (\<lambda>rw. bounded_row (n_z img) (n_y img) (n_x img)
                                  (spot_radius g (the (rw ''radius''))) rw) (rows spots)\<rparr>)"
proof -
  let ?radius = "map (\<lambda>rw. spot_radius g (the (rw ''radius''))) (rows spots)"
  let ?spots' = "\<lparr>columns = columns spots \<union> set box_columns,
             rows = map (\<lambda>rw. bounded_row (n_z img) (n_y img) (n_x img)
                                  (spot_radius g (the (rw ''radius''))) rw) (rows spots)\<rparr>"
  have g: "getitem spots ''radius'' = Inr (map (\<lambda>rw. rw ''radius'') (rows spots))"
    using assms by (simp add: valid_spots_def getitem_def)
  have r: "box_radius g (map (\<lambda>rw. rw ''radius'') (rows spots)) = Inr ?radius"
    using assms by (intro box_radius_defined) (simp add: valid_spots_def list_all_iff)
  have a: "add_bounds (zip [''z'', ''y'', ''x''] (image_shape img)) ?radius spots = (None, ?spots')"
    using assms
    by (simp add: image_shape_def valid_spots_def add_bounds_zyx zip_map_same comp_def
        del: add_bounds.simps)
  have s: "select_boxes ?spots' =
             Inr (map (spot_box (n_z img) (n_y img) (n_x img) g) (rows spots))"
  proof -
    have "apply_rows row_box (rows ?spots') =
            Inr (map (spot_box (n_z img) (n_y img) (n_x img) g) (rows spots))"
      using assms
      by (simp add: apply_rows_map)
         (rule apply_rows_total, simp add: valid_spots_def list_all_iff row_box_bounded)
    then show ?thesis by (simp add: select_boxes_def box_columns_def)
  qed
  show ?thesis
    by (simp add: measure_spot_intensity_def g r a s)
qed

subsection \<open>Looking up the measurement function\<close>

text \<open>
  C8. A name that is not an attribute of the numpy namespace raises ValueError with a
  message that names it; an existing name gives the attribute, with no error. The
  lookup takes the name alone: no image and no table is touched before it answers.
\<close>

theorem get_measurement_function_lookup:
  "(np measurement_type = None \<longrightarrow>
      get_measurement_function np measurement_type =
        Inl (ValueError
               (''measurement_type must be a numpy reduce function such as \"max\" or \"mean\". ''
                  @ measurement_type @ '' not found.'')))
   \<and> (np measurement_type = Some f \<longrightarrow> get_measurement_function np measurement_type = Inr f)"
  by (simp add: get_measurement_function_def)

theorem get_measurement_function_lookup_witness:
  "get_measurement_function [''max'' \<mapsto> np_max, ''mean'' \<mapsto> np_sum] ''max'' = Inr np_max
   \<and> get_measurement_function [''max'' \<mapsto> np_max, ''mean'' \<mapsto> np_sum] ''maxx'' =
        Inl (ValueError
               ''measurement_type must be a numpy reduce function such as \"max\" or \"mean\". maxx not found.'')"
  using get_measurement_function_lookup
          [of "[''max'' \<mapsto> np_max, ''mean'' \<mapsto> np_sum]" "''max''" np_max]
        get_measurement_function_lookup
          [of "[''max'' \<mapsto> np_max, ''mean'' \<mapsto> np_sum]" "''maxx''" np_max]
  by simp

subsection \<open>Concatenating nothing\<close>

text \<open>
  C7. With an empty sequence of per-slice results the maximum over the channel indices
  raises ValueError: no table is returned.
\<close>

theorem concatenate_empty_raises:
  "concatenate_spot_attributes_to_intensities [] =
     Inl (ValueError ''max() arg is an empty sequence'')"
  by (simp add: concatenate_spot_attributes_to_intensities_def axis_indices_def)

subsection \<open>The bounding box of a spot\<close>

lemma select_boxes_measured:
  assumes "valid_spots spots"
  shows "select_boxes (snd (measure_spot_intensity img spots mf g)) =
           Inr (map (spot_box (n_z img) (n_y img) (n_x img) g) (rows spots))"
proof -
  have "apply_rows row_box
          (map (\<lambda>rw. bounded_row (n_z img) (n_y img) (n_x img)
                       (spot_radius g (the (rw ''radius''))) rw) (rows spots)) =
        Inr (map (spot_box (n_z img) (n_y img) (n_x img) g) (rows spots))"
    unfolding apply_rows_map
    using assms
    by (intro apply_rows_total) (simp add: valid_spots_def list_all_iff row_box_bounded)
  then show ?thesis
    using assms by (simp add: measure_spot_intensity_valid select_boxes_def box_columns_def)
qed

lemma box_radius_single: "box_radius g [Some r] = Inr [spot_radius g r]"
  by (simp add: box_radius_def np_ceil_def spot_radius_def)

lemma lower_bound_Some:
  "lower_bound (Some c) R = Some (max (float64 (c - float64 (of_int (wrap64 (R - 1))))) 0)"
  by (simp add: lower_bound_def float_minus_int_def)

lemma upper_bound_Some:
  "upper_bound (Some c) R n = Some (min (float64 (c + float64 (of_int R))) (float64 (of_nat n)))"
  by (simp add: upper_bound_def float_plus_int_def)

text \<open>
  C2. For a table with coordinates and radius, the call stores for each axis the bounds
  \<open>max (center - (R - 1)) 0\<close> and \<open>min (center + R) extent\<close>, each axis from its own
  center and extent, where \<open>R\<close> is the int64 radius and the difference and the sum are
  float64 operations; the box handed to the measurement is their cast to int64, and the
  call raises only if the measurement function does. For integer centers, radii and
  extents of a size that float64 holds exactly, the box is
  \<open>[max (c - (R - 1)) 0, min (c + R) extent)\<close> in exact integers. The witness is the spot
  at coordinate 0 with radius 5 in a volume of extent 10: its box is [0, 5) on each axis
  and \<^verbatim>\<open>np.max\<close> measures it.
\<close>

theorem measure_spot_intensity_box_bounds:
  assumes "valid_spots spots" and "i < length (rows spots)"
    and "(rows spots ! i) ''z'' = Some cz" and "(rows spots ! i) ''y'' = Some cy"
    and "(rows spots ! i) ''x'' = Some cx" and "(rows spots ! i) ''radius'' = Some r"
    and "box_radius g [Some r] = Inr [R]"
  shows "\<exists>boxes.
      select_boxes (snd (measure_spot_intensity img spots mf g)) = Inr boxes
    \<and> length boxes = length (rows spots)
    \<and> fst (measure_spot_intensity img spots mf g) =
        apply_rows (\<lambda>b. external (mf (crop img b))) boxes
    \<and> (rows (snd (measure_spot_intensity img spots mf g)) ! i) ''z_min'' =
        Some (max (float64 (cz - float64 (of_int (wrap64 (R - 1))))) 0)
    \<and> (rows (snd (measure_spot_intensity img spots mf g)) ! i) ''z_max'' =
        Some (min (float64 (cz + float64 (of_int R))) (float64 (of_nat (n_z img))))
    \<and> (rows (snd (measure_spot_intensity img spots mf g)) ! i) ''y_min'' =
        Some (max (float64 (cy - float64 (of_int (wrap64 (R - 1))))) 0)
    \<and> (rows (snd (measure_spot_intensity img spots mf g)) ! i) ''y_max'' =
        Some (min (float64 (cy + float64 (of_int R))) (float64 (of_nat (n_y img))))
    \<and> (rows (snd (measure_spot_intensity img spots mf g)) ! i) ''x_min'' =
        Some (max (float64 (cx - float64 (of_int (wrap64 (R - 1))))) 0)
    \<and> (rows (snd (measure_spot_intensity img spots mf g)) ! i) ''x_max'' =
        Some (min (float64 (cx + float64 (of_int R))) (float64 (of_nat (n_x img))))
    \<and> boxes ! i =
        \<lparr>z_min = astype_int (max (float64 (cz - float64 (of_int (wrap64 (R - 1))))) 0),
         z_max = astype_int (min (float64 (cz + float64 (of_int R))) (float64 (of_nat (n_z img)))),
         y_min = astype_int (max (float64 (cy - float64 (of_int (wrap64 (R - 1))))) 0),
         y_max = astype_int (min (float64 (cy + float64 (of_int R))) (float64 (of_nat (n_y img)))),
         x_min = astype_int (max (float64 (cx - float64 (of_int (wrap64 (R - 1))))) 0),
         x_max = astype_int (min (float64 (cx + float64 (of_int R))) (float64 (of_nat (n_x img))))\<rparr>
    \<and> (\<forall>kz ky kx.
          cz = of_int kz \<and> cy = of_int ky \<and> cx = of_int kx
          \<and> \<bar>kz\<bar> \<le> 2 ^ 51 \<and> \<bar>ky\<bar> \<le> 2 ^ 51 \<and> \<bar>kx\<bar> \<le> 2 ^ 51 \<and> \<bar>R\<bar> \<le> 2 ^ 51
          \<and> n_z img < 2 ^ 53 \<and> n_y img < 2 ^ 53 \<and> n_x img < 2 ^ 53 \<longrightarrow>
          boxes ! i =
            \<lparr>z_min = max (kz - (R - 1)) 0, z_max = min (kz + R) (int (n_z img)),
             y_min = max (ky - (R - 1)) 0, y_max = min (ky + R) (int (n_y img)),
             x_min = max (kx - (R - 1)) 0, x_max = min (kx + R) (int (n_x img))\<rparr>)"
proof -
  let ?boxes = "map (spot_box (n_z img) (n_y img) (n_x img) g) (rows spots)"
  let ?m = "measure_spot_intensity img spots mf g"
  have R: "R = spot_radius g r"
    using assms(7) by (simp add: box_radius_single)
  have sel: "select_boxes (snd ?m) = Inr ?boxes"
    using assms(1) by (rule select_boxes_measured)
  have res: "fst ?m = apply_rows (\<lambda>b. external (mf (crop img b))) ?boxes"
    using assms(1) by (simp add: measure_spot_intensity_valid)
  have row: "rows (snd ?m) ! i =
               bounded_row (n_z img) (n_y img) (n_x img) R (rows spots ! i)"
    using assms(1,2,6) by (simp add: measure_spot_intensity_valid R)
  have bxl: "?boxes ! i =
        \<lparr>z_min = astype_int (the (lower_bound (Some cz) R)),
         z_max = astype_int (the (upper_bound (Some cz) R (n_z img))),
         y_min = astype_int (the (lower_bound (Some cy) R)),
         y_max = astype_int (the (upper_bound (Some cy) R (n_y img))),
         x_min = astype_int (the (lower_bound (Some cx) R)),
         x_max = astype_int (the (upper_bound (Some cx) R (n_x img)))\<rparr>"
    using assms(2-6) by (simp add: spot_box_def R Let_def)
  have bx: "?boxes ! i =
        \<lparr>z_min = astype_int (max (float64 (cz - float64 (of_int (wrap64 (R - 1))))) 0),
         z_max = astype_int (min (float64 (cz + float64 (of_int R))) (float64 (of_nat (n_z img)))),
         y_min = astype_int (max (float64 (cy - float64 (of_int (wrap64 (R - 1))))) 0),
         y_max = astype_int (min (float64 (cy + float64 (of_int R))) (float64 (of_nat (n_y img)))),
         x_min = astype_int (max (float64 (cx - float64 (of_int (wrap64 (R - 1))))) 0),
         x_max = astype_int (min (float64 (cx + float64 (of_int R))) (float64 (of_nat (n_x img))))\<rparr>"
    unfolding bxl by (simp only: lower_bound_Some upper_bound_Some option.sel)
  have exact: "\<forall>kz ky kx.
          cz = of_int kz \<and> cy = of_int ky \<and> cx = of_int kx
          \<and> \<bar>kz\<bar> \<le> 2 ^ 51 \<and> \<bar>ky\<bar> \<le> 2 ^ 51 \<and> \<bar>kx\<bar> \<le> 2 ^ 51 \<and> \<bar>R\<bar> \<le> 2 ^ 51
          \<and> n_z img < 2 ^ 53 \<and> n_y img < 2 ^ 53 \<and> n_x img < 2 ^ 53 \<longrightarrow>
          ?boxes ! i =
            \<lparr>z_min = max (kz - (R - 1)) 0, z_max = min (kz + R) (int (n_z img)),
             y_min = max (ky - (R - 1)) 0, y_max = min (ky + R) (int (n_y img)),
             x_min = max (kx - (R - 1)) 0, x_max = min (kx + R) (int (n_x img))\<rparr>"
  proof (intro allI impI)
    fix kz ky kx
    assume a: "cz = of_int kz \<and> cy = of_int ky \<and> cx = of_int kx
          \<and> \<bar>kz\<bar> \<le> 2 ^ 51 \<and> \<bar>ky\<bar> \<le> 2 ^ 51 \<and> \<bar>kx\<bar> \<le> 2 ^ 51 \<and> \<bar>R\<bar> \<le> 2 ^ 51
          \<and> n_z img < 2 ^ 53 \<and> n_y img < 2 ^ 53 \<and> n_x img < 2 ^ 53"
    then have c: "cz = of_int kz" "cy = of_int ky" "cx = of_int kx"
      and k: "\<bar>kz\<bar> \<le> 2 ^ 51" "\<bar>ky\<bar> \<le> 2 ^ 51" "\<bar>kx\<bar> \<le> 2 ^ 51" and r: "\<bar>R\<bar> \<le> 2 ^ 51"
      and n: "n_z img < 2 ^ 53" "n_y img < 2 ^ 53" "n_x img < 2 ^ 53"
      by blast+
    show "?boxes ! i =
            \<lparr>z_min = max (kz - (R - 1)) 0, z_max = min (kz + R) (int (n_z img)),
             y_min = max (ky - (R - 1)) 0, y_max = min (ky + R) (int (n_y img)),
             x_min = max (kx - (R - 1)) 0, x_max = min (kx + R) (int (n_x img))\<rparr>"
      unfolding bxl c
      by (simp only: bounds_exact(3,4) [OF k(1) r n(1)] bounds_exact(3,4) [OF k(2) r n(2)]
          bounds_exact(3,4) [OF k(3) r n(3)])
  qed
  have stored:
    "(rows (snd ?m) ! i) ''z_min'' = Some (max (float64 (cz - float64 (of_int (wrap64 (R - 1))))) 0)"
    "(rows (snd ?m) ! i) ''z_max'' =
       Some (min (float64 (cz + float64 (of_int R))) (float64 (of_nat (n_z img))))"
    "(rows (snd ?m) ! i) ''y_min'' = Some (max (float64 (cy - float64 (of_int (wrap64 (R - 1))))) 0)"
    "(rows (snd ?m) ! i) ''y_max'' =
       Some (min (float64 (cy + float64 (of_int R))) (float64 (of_nat (n_y img))))"
    "(rows (snd ?m) ! i) ''x_min'' = Some (max (float64 (cx - float64 (of_int (wrap64 (R - 1))))) 0)"
    "(rows (snd ?m) ! i) ''x_max'' =
       Some (min (float64 (cx + float64 (of_int R))) (float64 (of_nat (n_x img))))"
    unfolding row
    by (simp_all add: bounded_row_def assms(3-5) lower_bound_Some upper_bound_Some)
  have len: "length ?boxes = length (rows spots)" by simp
  from sel len res stored bx exact show ?thesis
    by (intro exI [of _ ?boxes] conjI) (assumption+)
qed

theorem measure_spot_intensity_box_bounds_witness:
  "valid_spots origin_spots
   \<and> select_boxes (snd (measure_spot_intensity example_image origin_spots np_max False)) =
       Inr [\<lparr>z_min = 0, z_max = 5, y_min = 0, y_max = 5, x_min = 0, x_max = 5\<rparr>]
   \<and> fst (measure_spot_intensity example_image origin_spots np_max False) = Inr [12]"
proof -
  have v: "valid_spots origin_spots"
    by (simp add: valid_spots_def origin_spots_def spot_def)
  have i: "0 < length (rows origin_spots)"
    by (simp add: origin_spots_def)
  have c: "(rows origin_spots ! 0) ''z'' = Some 0" "(rows origin_spots ! 0) ''y'' = Some 0"
    "(rows origin_spots ! 0) ''x'' = Some 0" "(rows origin_spots ! 0) ''radius'' = Some 5"
    by (simp_all add: origin_spots_def spot_def)
  have r: "box_radius False [Some 5] = Inr [5]"
    by (simp add: box_radius_def astype_int_def)
  from measure_spot_intensity_box_bounds [OF v i c r, of example_image np_max]
  obtain boxes where
    sel: "select_boxes (snd (measure_spot_intensity example_image origin_spots np_max False)) =
            Inr boxes"
    and len: "length boxes = length (rows origin_spots)"
    and res: "fst (measure_spot_intensity example_image origin_spots np_max False) =
                apply_rows (\<lambda>b. external (np_max (crop example_image b))) boxes"
    and ex: "\<forall>kz ky kx.
          (0::real) = of_int kz \<and> (0::real) = of_int ky \<and> (0::real) = of_int kx
          \<and> \<bar>kz\<bar> \<le> 2 ^ 51 \<and> \<bar>ky\<bar> \<le> 2 ^ 51 \<and> \<bar>kx\<bar> \<le> 2 ^ 51 \<and> \<bar>5 :: int\<bar> \<le> 2 ^ 51
          \<and> n_z example_image < 2 ^ 53 \<and> n_y example_image < 2 ^ 53
          \<and> n_x example_image < 2 ^ 53 \<longrightarrow>
          boxes ! 0 =
            \<lparr>z_min = max (kz - (5 - 1)) 0, z_max = min (kz + 5) (int (n_z example_image)),
             y_min = max (ky - (5 - 1)) 0, y_max = min (ky + 5) (int (n_y example_image)),
             x_min = max (kx - (5 - 1)) 0, x_max = min (kx + 5) (int (n_x example_image))\<rparr>"
    by blast
  from len have "length boxes = 1" by (simp add: origin_spots_def)
  then obtain b where b: "boxes = [b]"
    by (cases boxes) auto
  from ex [rule_format, of 0 0 0]
  have bv: "b = \<lparr>z_min = 0, z_max = 5, y_min = 0, y_max = 5, x_min = 0, x_max = 5\<rparr>"
    using b by (simp add: example_image_def)
  have "external (np_max (crop example_image b)) = Inr 12"
    unfolding bv
    by (simp add: crop_def slice_indices_def slice_bound_def example_image_def np_max_def
        external_def upt_rec [of _ "numeral _"] upt_rec [of 0])
  then show ?thesis
    using v sel res b bv by simp
qed

subsection \<open>The width of the box\<close>











subsection \<open>Rounding and the int64 cast at the edges\<close>

text \<open>
  Where the arithmetic of the machine shows. The sum of a center just below 4 and the
  radius 2 rounds up to 6 in float64, so the box of that spot along z is [2, 6): four
  wide. A radius of \<open>10 ^ 19\<close> is beyond int64 and its cast is \<open>- 2 ^ 63\<close>; the bounds
  stored for it are 0 and \<open>- 2 ^ 63\<close>.
\<close>

lemma float64_eval:
  assumes "1 \<le> \<bar>x\<bar>" and "bitlen \<lfloor>\<bar>x\<bar>\<rfloor> = e + 1" and "- 1022 \<le> e"
    and "round_half_even (x * 2 powi (52 - e)) = m"
  shows "float64 x = of_int m * 2 powi (e - 52)"
proof -
  have nz: "x \<noteq> 0" using assms(1) by auto
  have be: "binary_exponent \<bar>x\<bar> = e"
    using assms(1,2) by (simp add: binary_exponent_def)
  have k: "max e (- 1022) - 52 = e - 52" "- (e - 52) = 52 - e"
    using assms(3) by simp_all
  show ?thesis
    using nz by (simp only: float64_def be Let_def k assms(4) if_False)
qed

lemma bitlen_examples:
  "bitlen 2 = 1 + 1" "bitlen 5 = 2 + 1"
  "bitlen (2 ^ 63 - 1) = 62 + 1" "bitlen (2 ^ 63 - 5) = 62 + 1" "bitlen (2 ^ 63) = 63 + 1"
  by code_simp+

lemma float64_rounds_up: "float64 (4 - 1 / 2 ^ 51 + 2) = 6"
proof -
  have x: "(4 - 1 / 2 ^ 51 + 2 :: real) = 6 - 1 / 2 ^ 51" by simp
  have a: "1 \<le> \<bar>6 - 1 / 2 ^ 51 :: real\<bar>" by simp
  have "\<lfloor>\<bar>6 - 1 / 2 ^ 51 :: real\<bar>\<rfloor> = 5"
    by (simp add: floor_eq_iff)
  then have b: "bitlen \<lfloor>\<bar>6 - 1 / 2 ^ 51 :: real\<bar>\<rfloor> = 2 + 1"
    by (simp only: bitlen_examples)
  have q: "(6 - 1 / 2 ^ 51 :: real) * 2 powi (52 - 2) = of_int (6 * 2 ^ 50 - 1) + 1 / 2"
    by (simp add: power_int_def power_one_over)
  have f: "\<lfloor>of_int (6 * 2 ^ 50 - 1) + 1 / 2 :: real\<rfloor> = 6 * 2 ^ 50 - 1"
    by (simp add: floor_eq_iff)
  have r: "round_half_even ((6 - 1 / 2 ^ 51) * 2 powi (52 - 2)) = 6 * 2 ^ 50"
    unfolding q round_half_even_def f by simp
  have "float64 (6 - 1 / 2 ^ 51) = of_int (6 * 2 ^ 50) * 2 powi (2 - 52)"
    using a b _ r by (rule float64_eval) simp
  then show ?thesis
    by (simp add: x power_int_def power_one_over)
qed

lemma float64_exact_below: "float64 (4 - 1 / 2 ^ 51 - 1) = 3 - 1 / 2 ^ 51"
proof -
  have x: "(4 - 1 / 2 ^ 51 - 1 :: real) = 3 - 1 / 2 ^ 51" by simp
  have a: "1 \<le> \<bar>3 - 1 / 2 ^ 51 :: real\<bar>" by simp
  have "\<lfloor>\<bar>3 - 1 / 2 ^ 51 :: real\<bar>\<rfloor> = 2"
    by (simp add: floor_eq_iff)
  then have b: "bitlen \<lfloor>\<bar>3 - 1 / 2 ^ 51 :: real\<bar>\<rfloor> = 1 + 1"
    by (simp only: bitlen_examples)
  have q: "(3 - 1 / 2 ^ 51 :: real) * 2 powi (52 - 1) = of_int (3 * 2 ^ 51 - 1)"
    by (simp add: power_int_def power_one_over)
  have r: "round_half_even ((3 - 1 / 2 ^ 51) * 2 powi (52 - 1)) = 3 * 2 ^ 51 - 1"
    unfolding q by (rule round_half_even_of_int)
  have "float64 (3 - 1 / 2 ^ 51) = of_int (3 * 2 ^ 51 - 1) * 2 powi (1 - 52)"
    using a b _ r by (rule float64_eval) simp
  then show ?thesis
    by (simp add: x power_int_def power_one_over field_simps)
qed

lemma float64_int64_max: "float64 (of_int (2 ^ 63 - 1)) = 2 ^ 63"
proof -
  have a: "1 \<le> \<bar>of_int (2 ^ 63 - 1) :: real\<bar>" by simp
  have "\<lfloor>\<bar>of_int (2 ^ 63 - 1) :: real\<bar>\<rfloor> = 2 ^ 63 - 1"
    by (simp add: floor_eq_iff)
  then have b: "bitlen \<lfloor>\<bar>of_int (2 ^ 63 - 1) :: real\<bar>\<rfloor> = 62 + 1"
    by (simp only: bitlen_examples)
  have q: "(of_int (2 ^ 63 - 1) :: real) * 2 powi (52 - 62) = of_int (2 ^ 53 - 1) + 1023 / 1024"
    by (simp add: power_int_def power_one_over)
  have f: "\<lfloor>of_int (2 ^ 53 - 1) + 1023 / 1024 :: real\<rfloor> = 2 ^ 53 - 1"
    by (simp add: floor_eq_iff)
  have r: "round_half_even (of_int (2 ^ 63 - 1) * 2 powi (52 - 62)) = 2 ^ 53"
    unfolding q round_half_even_def f by simp
  have "float64 (of_int (2 ^ 63 - 1)) = of_int (2 ^ 53) * 2 powi (62 - 52)"
    using a b _ r by (rule float64_eval) simp
  then show ?thesis
    by (simp add: power_int_def power_one_over)
qed

lemma float64_int64_min: "float64 (of_int (- (2 ^ 63))) = - (2 ^ 63)"
proof -
  have a: "1 \<le> \<bar>of_int (- (2 ^ 63)) :: real\<bar>" by simp
  have "\<lfloor>\<bar>of_int (- (2 ^ 63)) :: real\<bar>\<rfloor> = 2 ^ 63"
    by (simp add: floor_eq_iff)
  then have b: "bitlen \<lfloor>\<bar>of_int (- (2 ^ 63)) :: real\<bar>\<rfloor> = 63 + 1"
    by (simp only: bitlen_examples)
  have q: "(of_int (- (2 ^ 63)) :: real) * 2 powi (52 - 63) = of_int (- (2 ^ 52))"
    by (simp add: power_int_def power_one_over)
  have r: "round_half_even (of_int (- (2 ^ 63)) * 2 powi (52 - 63)) = - (2 ^ 52)"
    unfolding q by (rule round_half_even_of_int)
  have "float64 (of_int (- (2 ^ 63))) = of_int (- (2 ^ 52)) * 2 powi (63 - 52)"
    using a b _ r by (rule float64_eval) simp
  then show ?thesis
    by (simp add: power_int_def power_one_over)
qed

lemma float64_absorbs: "float64 (5 - 2 ^ 63) = - (2 ^ 63)"
proof -
  have a: "1 \<le> \<bar>5 - 2 ^ 63 :: real\<bar>" by simp
  have "\<lfloor>\<bar>5 - 2 ^ 63 :: real\<bar>\<rfloor> = 2 ^ 63 - 5"
    by (simp add: floor_eq_iff)
  then have b: "bitlen \<lfloor>\<bar>5 - 2 ^ 63 :: real\<bar>\<rfloor> = 62 + 1"
    by (simp only: bitlen_examples)
  have q: "(5 - 2 ^ 63 :: real) * 2 powi (52 - 62) = of_int (- (2 ^ 53)) + 5 / 1024"
    by (simp add: power_int_def power_one_over)
  have f: "\<lfloor>of_int (- (2 ^ 53)) + 5 / 1024 :: real\<rfloor> = - (2 ^ 53)"
    by (simp add: floor_eq_iff)
  have r: "round_half_even ((5 - 2 ^ 63) * 2 powi (52 - 62)) = - (2 ^ 53)"
    unfolding q round_half_even_def f by simp
  have "float64 (5 - 2 ^ 63) = of_int (- (2 ^ 53)) * 2 powi (62 - 52)"
    using a b _ r by (rule float64_eval) simp
  then show ?thesis
    by (simp add: power_int_def power_one_over)
qed

lemma fractional_centre_box:
  "select_boxes (snd (measure_spot_intensity example_image fractional_spots np_max False)) =
     Inr [\<lparr>z_min = 2, z_max = 6, y_min = 4, y_max = 7, x_min = 4, x_max = 7\<rparr>]
   \<and> box_width ''z'' example_image
         \<lparr>z_min = 2, z_max = 6, y_min = 4, y_max = 7, x_min = 4, x_max = 7\<rparr> = 4"
proof -
  have v: "valid_spots fractional_spots"
    by (simp add: valid_spots_def fractional_spots_def spot_def del: not_None_eq)
  have t: "\<lfloor>3 - 1 / 2 ^ 51 :: real\<rfloor> = 2"
    by (simp add: floor_eq_iff)
  have w: "float64 (of_int (wrap64 (2 - 1))) = 1" "float64 (of_int 2) = 2"
    "float64 (of_nat 10) = 10"
    by (simp_all add: wrap64_def float64_small)
  have m: "max (3 - 1 / 2 ^ 51 :: real) 0 = 3 - 1 / 2 ^ 51" "min (6 :: real) 10 = 6"
    by simp_all
  have z: "lower_bound (Some (4 - 1 / 2 ^ 51)) 2 = Some (3 - 1 / 2 ^ 51)"
    "upper_bound (Some (4 - 1 / 2 ^ 51)) 2 10 = Some 6"
    by (simp_all only: lower_bound_Some upper_bound_Some w float64_rounds_up
        float64_exact_below m)
  have o: "lower_bound (Some 5) 2 = Some 4" "upper_bound (Some 5) 2 10 = Some 7"
    by (simp_all add: lower_bound_def upper_bound_def float_minus_int_def float_plus_int_def
        wrap64_def float64_small)
  have r: "spot_radius False 2 = 2"
    by (simp add: spot_radius_def astype_int_def)
  have c: "astype_int (3 - 1 / 2 ^ 51) = 2" "astype_int 6 = 6" "astype_int 4 = 4" "astype_int 7 = 7"
    by (simp_all add: astype_int_def t)
  have g: "\<And>cz l u. lower_bound (Some cz) 2 = Some l \<Longrightarrow> upper_bound (Some cz) 2 10 = Some u
             \<Longrightarrow> spot_box 10 10 10 False (spot cz 5 5 2) =
                   \<lparr>z_min = astype_int l, z_max = astype_int u,
                    y_min = 4, y_max = 7, x_min = 4, x_max = 7\<rparr>"
    by (simp add: spot_def spot_box_def r o c)
  have b: "spot_box 10 10 10 False (spot (4 - 1 / 2 ^ 51) 5 5 2) =
             \<lparr>z_min = 2, z_max = 6, y_min = 4, y_max = 7, x_min = 4, x_max = 7\<rparr>"
    using g [OF z] by (simp only: c)
  have e: "n_z example_image = 10" "n_y example_image = 10" "n_x example_image = 10"
    "rows fractional_spots = [spot (4 - 1 / 2 ^ 51) 5 5 2]"
    by (simp_all add: example_image_def fractional_spots_def)
  have "select_boxes (snd (measure_spot_intensity example_image fractional_spots np_max False)) =
          Inr [\<lparr>z_min = 2, z_max = 6, y_min = 4, y_max = 7, x_min = 4, x_max = 7\<rparr>]"
    unfolding select_boxes_measured [OF v] by (simp only: e list.map b)
  moreover have "box_width ''z'' example_image
         \<lparr>z_min = 2, z_max = 6, y_min = 4, y_max = 7, x_min = 4, x_max = 7\<rparr> = 4"
    by (simp add: box_width_def example_image_def slice_indices_def slice_bound_def)
  ultimately show ?thesis by simp
qed

lemma huge_radius_box:
  "box_radius False [Some (10 ^ 19)] = Inr [- (2 ^ 63)]
   \<and> select_boxes (snd (measure_spot_intensity example_image huge_radius_spots np_max False)) =
       Inr [\<lparr>z_min = 0, z_max = - (2 ^ 63), y_min = 0, y_max = - (2 ^ 63),
             x_min = 0, x_max = - (2 ^ 63)\<rparr>]"
proof -
  have v: "valid_spots huge_radius_spots"
    by (simp add: valid_spots_def huge_radius_spots_def spot_def del: not_None_eq)
  have r: "spot_radius False (10 ^ 19) = - (2 ^ 63)"
    by (simp add: spot_radius_def astype_int_def)
  have w: "wrap64 (- (2 ^ 63) - 1) = 2 ^ 63 - 1"
    by (simp add: wrap64_def)
  have s: "(5 + - (2 ^ 63) :: real) = 5 - 2 ^ 63" by simp
  have m: "max (- (2 ^ 63) :: real) 0 = 0" "min (- (2 ^ 63) :: real) (float64 (of_nat 10)) = - (2 ^ 63)"
    by (simp_all add: float64_small)
  have z: "lower_bound (Some 5) (- (2 ^ 63)) = Some 0"
    "upper_bound (Some 5) (- (2 ^ 63)) 10 = Some (- (2 ^ 63))"
    by (simp_all only: lower_bound_Some upper_bound_Some w float64_int64_max float64_int64_min
        s float64_absorbs m)
  have c: "astype_int 0 = 0" "astype_int (- (2 ^ 63)) = - (2 ^ 63)"
    by (simp_all add: astype_int_def)
  have g: "\<And>R l u. spot_radius False (10 ^ 19) = R \<Longrightarrow> lower_bound (Some 5) R = Some l
             \<Longrightarrow> upper_bound (Some 5) R 10 = Some u
             \<Longrightarrow> spot_box 10 10 10 False (spot 5 5 5 (10 ^ 19)) =
                   \<lparr>z_min = astype_int l, z_max = astype_int u,
                    y_min = astype_int l, y_max = astype_int u,
                    x_min = astype_int l, x_max = astype_int u\<rparr>"
    by (simp add: spot_def spot_box_def)
  have b: "spot_box 10 10 10 False (spot 5 5 5 (10 ^ 19)) =
             \<lparr>z_min = 0, z_max = - (2 ^ 63), y_min = 0, y_max = - (2 ^ 63),
              x_min = 0, x_max = - (2 ^ 63)\<rparr>"
    using g [OF r z] by (simp only: c)
  have e: "n_z example_image = 10" "n_y example_image = 10" "n_x example_image = 10"
    "rows huge_radius_spots = [spot 5 5 5 (10 ^ 19)]"
    by (simp_all add: example_image_def huge_radius_spots_def)
  have "select_boxes (snd (measure_spot_intensity example_image huge_radius_spots np_max False)) =
          Inr [\<lparr>z_min = 0, z_max = - (2 ^ 63), y_min = 0, y_max = - (2 ^ 63),
                x_min = 0, x_max = - (2 ^ 63)\<rparr>]"
    unfolding select_boxes_measured [OF v] by (simp only: e list.map b)
  moreover have "box_radius False [Some (10 ^ 19)] = Inr [- (2 ^ 63)]"
    by (simp only: box_radius_single r)
  ultimately show ?thesis by simp
qed

subsection \<open>What the measurement leaves in the caller's table\<close>

lemma add_bounds_frame:
  assumes "length radius = length (rows df)" and "add_bounds axs radius df = (eo, df')"
  shows "length (rows df') = length (rows df)
       \<and> columns df \<subseteq> columns df'
       \<and> columns df' \<subseteq> columns df \<union> (\<Union>(v, n) \<in> set axs. {v @ ''_min'', v @ ''_max''})
       \<and> (\<forall>i<length (rows df). \<forall>c. c \<notin> (\<Union>(v, n) \<in> set axs. {v @ ''_min'', v @ ''_max''})
              \<longrightarrow> (rows df' ! i) c = (rows df ! i) c)"
  using assms
proof (induction axs arbitrary: df)
  case Nil
  then show ?case by simp
next
  case (Cons a axs)
  obtain v n where a: "a = (v, n)" by (cases a)
  show ?case
  proof (cases "v \<in> columns df")
    case False
    then have "add_bounds (a # axs) radius df = (Some (KeyError v), df)"
      by (simp add: a getitem_def)
    with Cons.prems(2) show ?thesis by simp
  next
    case True
    let ?df2 = "\<lparr>columns = insert (v @ ''_max'') (insert (v @ ''_min'') (columns df)),
              rows = map (\<lambda>(rw, R).
                            rw(v @ ''_min'' := lower_bound (rw v) R,
                               v @ ''_max'' := upper_bound (rw v) R n))
                       (zip (rows df) radius)\<rparr>"
    have step: "add_bounds axs radius ?df2 = (eo, df')"
      using Cons.prems(2) add_bounds_step [OF True, of n axs radius] by (simp only: a)
    have len2: "length (rows ?df2) = length (rows df)"
      using Cons.prems(1) by simp
    have ih: "length (rows df') = length (rows ?df2)
       \<and> columns ?df2 \<subseteq> columns df'
       \<and> columns df' \<subseteq> columns ?df2 \<union> (\<Union>(v, n) \<in> set axs. {v @ ''_min'', v @ ''_max''})
       \<and> (\<forall>i<length (rows ?df2). \<forall>c. c \<notin> (\<Union>(v, n) \<in> set axs. {v @ ''_min'', v @ ''_max''})
              \<longrightarrow> (rows df' ! i) c = (rows ?df2 ! i) c)"
      using Cons.prems(1) by (intro Cons.IH [OF _ step]) simp
    have keep: "\<And>i c. i < length (rows df) \<Longrightarrow> c \<noteq> v @ ''_min'' \<Longrightarrow> c \<noteq> v @ ''_max''
                  \<Longrightarrow> (rows ?df2 ! i) c = (rows df ! i) c"
      using Cons.prems(1) by simp
    show ?thesis
      using ih len2 keep by (auto simp: a)
  qed
qed

lemma bound_labels_zyx:
  "(\<Union>(v, n) \<in> set (zip [''z'', ''y'', ''x''] (image_shape img)). {v @ ''_min'', v @ ''_max''}) =
     set box_columns"
  by (auto simp: image_shape_def box_columns_def)

lemma measured_table_frame:
  "length (rows (snd (measure_spot_intensity img spots mf g))) = length (rows spots)
   \<and> columns spots \<subseteq> columns (snd (measure_spot_intensity img spots mf g))
   \<and> columns (snd (measure_spot_intensity img spots mf g)) \<subseteq> columns spots \<union> set box_columns
   \<and> (\<forall>i<length (rows spots). \<forall>c. c \<notin> set box_columns
          \<longrightarrow> (rows (snd (measure_spot_intensity img spots mf g)) ! i) c = (rows spots ! i) c)"
proof (cases "getitem spots ''radius''")
  case (Inl e)
  then show ?thesis by (simp add: measure_spot_intensity_def)
next
  case (Inr s)
  then have s: "length s = length (rows spots)"
    by (auto simp: getitem_def split: if_splits)
  show ?thesis
  proof (cases "box_radius g s")
    case (Inl e)
    then show ?thesis using Inr by (simp add: measure_spot_intensity_def)
  next
    case radius: (Inr radius)
    then have len: "length radius = length (rows spots)"
      using s by (simp add: box_radius_length)
    obtain eo df' where ab:
      "add_bounds (zip [''z'', ''y'', ''x''] (image_shape img)) radius spots = (eo, df')"
      by (cases "add_bounds (zip [''z'', ''y'', ''x''] (image_shape img)) radius spots")
    have snd: "snd (measure_spot_intensity img spots mf g) = df'"
      using Inr radius ab
      by (cases eo; cases "select_boxes df'") (simp_all add: measure_spot_intensity_def)
    show ?thesis
      unfolding snd
      using add_bounds_frame [OF len ab] unfolding bound_labels_zyx by simp
  qed
qed

text \<open>
  C5, as the code has it. The call keeps the rows and every column other than the six
  bound columns as they were (the coordinates and the radius among them); the bound
  columns it writes stay in the caller's table when it returns.
\<close>

theorem measure_spot_intensity_frame:
  assumes "snd (measure_spot_intensity img spots mf g) = spots'"
  shows "length (rows spots') = length (rows spots)
       \<and> columns spots \<subseteq> columns spots'
       \<and> columns spots' \<subseteq> columns spots \<union> set box_columns
       \<and> (\<forall>i<length (rows spots). \<forall>c. c \<notin> set box_columns
              \<longrightarrow> (rows spots' ! i) c = (rows spots ! i) c)
       \<and> (valid_spots spots \<longrightarrow> set box_columns \<subseteq> columns spots')"
proof -
  have "valid_spots spots \<longrightarrow> set box_columns \<subseteq> columns spots'"
    using assms by (auto simp: measure_spot_intensity_valid)
  then show ?thesis
    using measured_table_frame [of img spots mf g] assms by simp
qed

theorem measure_spot_intensity_frame_witness:
  "valid_spots centre_spots
   \<and> length (rows (snd (measure_spot_intensity example_image centre_spots np_max False))) = 1
   \<and> columns (snd (measure_spot_intensity example_image centre_spots np_max False)) =
       {''z'', ''y'', ''x'', ''radius''} \<union> set box_columns
   \<and> (rows (snd (measure_spot_intensity example_image centre_spots np_max False)) ! 0) ''z'' = Some 5
   \<and> (rows (snd (measure_spot_intensity example_image centre_spots np_max False)) ! 0) ''radius'' = Some 2"
proof -
  let ?t = "snd (measure_spot_intensity example_image centre_spots np_max False)"
  have v: "valid_spots centre_spots"
    by (simp add: valid_spots_def centre_spots_def spot_def)
  have f: "length (rows ?t) = length (rows centre_spots)
       \<and> columns centre_spots \<subseteq> columns ?t
       \<and> columns ?t \<subseteq> columns centre_spots \<union> set box_columns
       \<and> (\<forall>i<length (rows centre_spots). \<forall>c. c \<notin> set box_columns
              \<longrightarrow> (rows ?t ! i) c = (rows centre_spots ! i) c)
       \<and> (valid_spots centre_spots \<longrightarrow> set box_columns \<subseteq> columns ?t)"
    by (rule measure_spot_intensity_frame) simp
  have l: "length (rows ?t) = 1"
    using f by (simp add: centre_spots_def)
  have c: "columns ?t = {''z'', ''y'', ''x'', ''radius''} \<union> set box_columns"
    using f v by (auto simp: centre_spots_def)
  have "''z'' \<notin> set box_columns" "''radius'' \<notin> set box_columns"
    by (simp_all add: box_columns_def)
  with f have "(rows ?t ! 0) ''z'' = (rows centre_spots ! 0) ''z''"
    "(rows ?t ! 0) ''radius'' = (rows centre_spots ! 0) ''radius''"
    by (simp_all add: centre_spots_def)
  then have "(rows ?t ! 0) ''z'' = Some 5" "(rows ?t ! 0) ''radius'' = Some 2"
    by (simp_all add: centre_spots_def spot_def)
  with v l c show ?thesis by simp
qed

text \<open>
  C5, as the claim has it, fails: after measuring the example spot the caller's table
  is not the table it passed. It has a column \<^verbatim>\<open>z_min\<close> that it did not have, holding
  the bound 4 for the spot.
\<close>

theorem measure_spot_intensity_mutates_counterexample:
  "snd (measure_spot_intensity example_image centre_spots np_max False) \<noteq> centre_spots
   \<and> ''z_min'' \<notin> columns centre_spots
   \<and> ''z_min'' \<in> columns (snd (measure_spot_intensity example_image centre_spots np_max False))
   \<and> (rows (snd (measure_spot_intensity example_image centre_spots np_max False)) ! 0) ''z_min''
       = Some 4"
proof -
  let ?t = "snd (measure_spot_intensity example_image centre_spots np_max False)"
  have v: "valid_spots centre_spots"
    by (simp add: valid_spots_def centre_spots_def spot_def)
  have a: "''z_min'' \<notin> columns centre_spots"
    by (simp add: centre_spots_def)
  have b: "''z_min'' \<in> columns ?t"
    by (simp add: measure_spot_intensity_valid [OF v] box_columns_def)
  have c: "(rows ?t ! 0) ''z_min'' = Some 4"
    unfolding measure_spot_intensity_valid [OF v]
    by (simp add: centre_spots_def spot_def bounded_row_def spot_radius_def astype_int_def
        lower_bound_def float_minus_int_def wrap64_def float64_small)
  from a b have "?t \<noteq> centre_spots" by auto
  with a b c show ?thesis by simp
qed

subsection \<open>Filling the table from a reference set of spots\<close>

















text \<open>
  C9. With no spot in the table the call returns at once, without an error: the table it
  returns has no spot row and the channel and round extents of the volume. The result
  does not depend on the slices or on the measurement function, and the table of spots
  is returned as it was: no slice was read and nothing was measured.
\<close>

theorem measure_spot_intensities_no_spots:
  assumes "rows spot_attributes = []"
  shows "measure_spot_intensities data_image spot_attributes measurement_function
           radius_is_gyration =
         (Inr \<lparr>features = spot_attributes, n_c = shape_ch data_image,
               n_r = shape_round data_image, tensor = []\<rparr>,
          spot_attributes)"
  using assms by (simp add: measure_spot_intensities_def empty_intensity_table_def)

theorem measure_spot_intensities_no_spots_witness:
  "rows no_spots = []
   \<and> measure_spot_intensities example_stack no_spots np_max False =
       (Inr \<lparr>features = no_spots, n_c = 2, n_r = 3, tensor = []\<rparr>, no_spots)"
proof -
  have e: "rows no_spots = []" by (simp add: no_spots_def)
  from measure_spot_intensities_no_spots [OF e, of example_stack np_max False]
  show ?thesis
    using e by (simp add: example_stack_def)
qed

subsection \<open>Concatenating per-slice results\<close>

lemma py_max_Max: "xs \<noteq> [] \<Longrightarrow> py_max xs = Inr (Max (set xs))"
proof (cases xs)
  case Nil
  assume "xs \<noteq> []"
  with Nil show ?thesis by simp
next
  case (Cons a list)
  have "Max (set (a # list)) = fold max list a"
    by (rule Max.set_eq_fold)
  then show ?thesis by (simp add: Cons)
qed

lemma axis_indices_defined:
  assumes "list_all (\<lambda>(attrs, inds). inds ax \<noteq> None) spot_attributes"
  shows "axis_indices ax spot_attributes = Inr (map (\<lambda>(attrs, inds). the (inds ax)) spot_attributes)"
  unfolding axis_indices_def
  using assms by (intro apply_rows_total) (auto simp: list_all_iff)

lemma fill_rows_append:
  assumes "''intensity'' \<in> cols" and "inds CH = Some c" and "inds ROUND = Some r"
    and "c < n_c it" and "r < n_r it"
    and "tensor it = pre @ replicate (length rws + k) blank" and "i = length pre"
  shows "fill_rows cols rws inds i it =
           Inr (it\<lparr>tensor := pre @ map (\<lambda>rw. blank[c := (blank ! c)[r := rw ''intensity'']]) rws
                                 @ replicate k blank\<rparr>,
                i + length rws)"
  using assms(4-7)
proof (induction rws arbitrary: pre i it)
  case Nil
  then show ?case by simp
next
  case (Cons rw rws)
  let ?m = "blank[c := (blank ! c)[r := rw ''intensity'']]"
  let ?it' = "it\<lparr>tensor := (pre @ [?m]) @ replicate (length rws + k) blank\<rparr>"
  have i: "i < length (tensor it)"
    using Cons.prems by simp
  have at: "tensor it ! i = blank"
    using Cons.prems by (simp add: nth_append)
  have upd: "(tensor it)[i := ?m] = (pre @ [?m]) @ replicate (length rws + k) blank"
    using Cons.prems by (simp add: list_update_append)
  have se: "set_entry it i c r (rw ''intensity'') = Inr ?it'"
    using i Cons.prems(1,2) by (simp add: set_entry_def at upd)
  have "fill_rows cols rws inds (i + 1) ?it' =
          Inr (?it'\<lparr>tensor := (pre @ [?m])
                         @ map (\<lambda>rw. blank[c := (blank ! c)[r := rw ''intensity'']]) rws
                         @ replicate k blank\<rparr>, (i + 1) + length rws)"
    using Cons.prems by (intro Cons.IH) simp_all
  then show ?case
    using assms(1-3) se by simp
qed

lemma fill_pairs_append:
  assumes "valid_slices spot_attributes"
    and "\<And>attrs inds. (attrs, inds) \<in> set spot_attributes \<Longrightarrow>
           the (inds CH) < n_c it \<and> the (inds ROUND) < n_r it"
    and "tensor it = pre @ replicate (sum_list (map (\<lambda>(attrs, inds). length (rows attrs)) spot_attributes) + k) blank"
    and "i = length pre"
  shows "fill_pairs spot_attributes i it =
           Inr (it\<lparr>tensor := pre @ concat (map (\<lambda>(attrs, inds).
                      map (\<lambda>rw. blank[the (inds CH) := (blank ! the (inds CH))
                                          [the (inds ROUND) := rw ''intensity'']])
                        (rows attrs)) spot_attributes)
                    @ replicate k blank\<rparr>)"
  using assms
proof (induction spot_attributes arbitrary: pre i it)
  case Nil
  then show ?case by simp
next
  case (Cons p rest)
  obtain attrs inds where p: "p = (attrs, inds)" by (cases p)
  from Cons.prems(1) obtain c r where
    ci: "''intensity'' \<in> columns attrs" and c: "inds CH = Some c" and r: "inds ROUND = Some r"
    by (auto simp: valid_slices_def p)
  have rng: "c < n_c it" "r < n_r it"
    using Cons.prems(2) [of attrs inds] c r by (simp_all add: p)
  let ?k = "sum_list (map (\<lambda>(attrs, inds). length (rows attrs)) rest) + k"
  let ?rows = "map (\<lambda>rw. blank[c := (blank ! c)[r := rw ''intensity'']]) (rows attrs)"
  let ?it' = "it\<lparr>tensor := pre @ ?rows @ replicate ?k blank\<rparr>"
  have t: "tensor it = pre @ replicate (length (rows attrs) + ?k) blank"
    using Cons.prems(3) by (simp add: p add.assoc)
  have fr: "fill_rows (columns attrs) (rows attrs) inds i it = Inr (?it', i + length (rows attrs))"
    using ci c r rng t Cons.prems(4) by (rule fill_rows_append)
  have v': "valid_slices rest"
    using Cons.prems(1) by (simp add: valid_slices_def)
  have r': "\<And>attrs inds. (attrs, inds) \<in> set rest \<Longrightarrow>
           the (inds CH) < n_c ?it' \<and> the (inds ROUND) < n_r ?it'"
    using Cons.prems(2) by auto
  have t': "tensor ?it' = (pre @ ?rows) @ replicate ?k blank"
    by simp
  have i': "i + length (rows attrs) = length (pre @ ?rows)"
    using Cons.prems(4) by simp
  have "fill_pairs rest (i + length (rows attrs)) ?it' =
           Inr (?it'\<lparr>tensor := (pre @ ?rows) @ concat (map (\<lambda>(attrs, inds).
                      map (\<lambda>rw. blank[the (inds CH) := (blank ! the (inds CH))
                                          [the (inds ROUND) := rw ''intensity'']])
                        (rows attrs)) rest)
                    @ replicate k blank\<rparr>)"
    using v' r' t' i' by (rule Cons.IH)
  then show ?case
    using fr c r by (simp add: p)
qed

lemma single_entry_nth:
  assumes "c < nc" and "r < nr" and "c' < nc" and "r' < nr"
  shows "single_entry nc nr c r v ! c' ! r' = (if c' = c \<and> r' = r then v else None)"
  using assms by (auto simp: single_entry_def nth_list_update)

lemma filter_unset: "filter (\<lambda>e. e \<noteq> None) (concat (replicate n (replicate k None))) = []"
  by (induction n) simp_all

lemma single_entry_count:
  assumes "c < nc" and "r < nr"
  shows "length (filter (\<lambda>e. e \<noteq> None) (concat (single_entry nc nr c r (Some v)))) = 1"
proof -
  have row: "(replicate nr None)[r := Some v] =
               replicate r None @ Some v # replicate (nr - Suc r) None"
    using assms(2) by (simp add: upd_conv_take_nth_drop)
  have "single_entry nc nr c r (Some v) =
          replicate c (replicate nr None) @ (replicate nr None)[r := Some v]
            # replicate (nc - Suc c) (replicate nr None)"
    using assms(1) by (simp add: single_entry_def upd_conv_take_nth_drop min_def)
  then show ?thesis
    by (simp add: row filter_unset)
qed

lemma sum_list_rows:
  "length (concat (map (\<lambda>(attrs, inds). map (f inds) (rows attrs)) spot_attributes)) =
     sum_list (map (\<lambda>(attrs, inds). length (rows attrs)) spot_attributes)"
  by (induction spot_attributes) auto

lemma concatenate_valid:
  assumes "spot_attributes \<noteq> []" and "valid_slices spot_attributes"
  shows "concatenate_spot_attributes_to_intensities spot_attributes =
     Inr \<lparr>features =
            \<lparr>columns = \<Union> (set (map columns (map fst spot_attributes))) - {''spot_id'', ''intensity''},
             rows = map (\<lambda>rw. rw |` (- {''spot_id'', ''intensity''}))
                      (concat (map rows (map fst spot_attributes)))\<rparr>,
          n_c = Max (set (map (\<lambda>(attrs, inds). the (inds CH)) spot_attributes)) + 1,
          n_r = Max (set (map (\<lambda>(attrs, inds). the (inds ROUND)) spot_attributes)) + 1,
          tensor = concat (map (\<lambda>(attrs, inds).
                      map (\<lambda>rw. single_entry
                                  (Max (set (map (\<lambda>(attrs, inds). the (inds CH)) spot_attributes)) + 1)
                                  (Max (set (map (\<lambda>(attrs, inds). the (inds ROUND)) spot_attributes)) + 1)
                                  (the (inds CH)) (the (inds ROUND)) (rw ''intensity''))
                        (rows attrs)) spot_attributes)\<rparr>"
proof -
  define chs where "chs = map (\<lambda>(attrs, inds). the (inds CH)) spot_attributes"
  define rounds where "rounds = map (\<lambda>(attrs, inds). the (inds ROUND)) spot_attributes"
  define mc where "mc = Max (set chs)"
  define mr where "mr = Max (set rounds)"
  define nc where "nc = mc + 1"
  define nr where "nr = mr + 1"
  let ?all = "pd_concat (map fst spot_attributes)"
  let ?fc = "\<lparr>columns = columns ?all - set [''spot_id'', ''intensity''],
              rows = map (\<lambda>rw. rw |` (- set [''spot_id'', ''intensity''])) (rows ?all)\<rparr>"
  let ?blank = "replicate nc (replicate nr (None :: real option))"
  let ?e = "empty_intensity_table ?fc nc nr :: real intensity_table"
  have a1: "axis_indices CH spot_attributes = Inr chs"
    unfolding chs_def
    using assms(2) by (intro axis_indices_defined) (auto simp: valid_slices_def list_all_iff)
  have a2: "axis_indices ROUND spot_attributes = Inr rounds"
    unfolding rounds_def
    using assms(2) by (intro axis_indices_defined) (auto simp: valid_slices_def list_all_iff)
  have m1: "py_max chs = Inr mc"
    unfolding mc_def using assms(1) by (intro py_max_Max) (simp add: chs_def)
  have m2: "py_max rounds = Inr mr"
    unfolding mr_def using assms(1) by (intro py_max_Max) (simp add: rounds_def)
  obtain p rest where sa: "spot_attributes = p # rest"
    using assms(1) by (cases spot_attributes) auto
  have cols: "''spot_id'' \<in> columns ?all" "''intensity'' \<in> columns ?all"
    using assms(2) by (auto simp: valid_slices_def pd_concat_def sa split: prod.splits)
  have d: "drop_columns ?all [''spot_id'', ''intensity''] = Inr ?fc"
    using cols by (simp add: drop_columns_def)
  have len: "length (rows ?fc) =
               sum_list (map (\<lambda>(attrs, inds). length (rows attrs)) spot_attributes)"
    by (simp add: pd_concat_def length_concat comp_def split_def)
  have t: "tensor ?e =
             [] @ replicate (sum_list (map (\<lambda>(attrs, inds). length (rows attrs)) spot_attributes) + 0)
                    ?blank"
    using len by (simp add: empty_intensity_table_def)
  have rng: "\<And>attrs inds. (attrs, inds) \<in> set spot_attributes \<Longrightarrow>
               the (inds CH) < n_c ?e \<and> the (inds ROUND) < n_r ?e"
  proof -
    fix attrs inds assume m: "(attrs, inds) \<in> set spot_attributes"
    then have "the (inds CH) \<in> set chs" "the (inds ROUND) \<in> set rounds"
      unfolding chs_def rounds_def by force+
    then have "the (inds CH) \<le> mc" "the (inds ROUND) \<le> mr"
      unfolding mc_def mr_def by simp_all
    then show "the (inds CH) < n_c ?e \<and> the (inds ROUND) < n_r ?e"
      by (simp add: empty_intensity_table_def nc_def nr_def)
  qed
  have i0: "0 = length ([] :: real option list list list)" by simp
  have f: "fill_pairs spot_attributes 0 ?e =
           Inr (?e\<lparr>tensor := [] @ concat (map (\<lambda>(attrs, inds).
                      map (\<lambda>rw. ?blank[the (inds CH) := (?blank ! the (inds CH))
                                          [the (inds ROUND) := rw ''intensity'']])
                        (rows attrs)) spot_attributes)
                    @ replicate 0 ?blank\<rparr>)"
    using assms(2) rng t i0 by (rule fill_pairs_append)
  have "concatenate_spot_attributes_to_intensities spot_attributes =
          Inr (?e\<lparr>tensor := [] @ concat (map (\<lambda>(attrs, inds).
                      map (\<lambda>rw. ?blank[the (inds CH) := (?blank ! the (inds CH))
                                          [the (inds ROUND) := rw ''intensity'']])
                        (rows attrs)) spot_attributes)
                    @ replicate 0 ?blank\<rparr>)"
    unfolding concatenate_spot_attributes_to_intensities_def
    by (simp only: a1 a2 m1 m2 d f [unfolded nc_def nr_def] Let_def sum.case nc_def nr_def)
  also have "\<dots> =
     Inr \<lparr>features =
            \<lparr>columns = \<Union> (set (map columns (map fst spot_attributes))) - {''spot_id'', ''intensity''},
             rows = map (\<lambda>rw. rw |` (- {''spot_id'', ''intensity''}))
                      (concat (map rows (map fst spot_attributes)))\<rparr>,
          n_c = nc, n_r = nr,
          tensor = concat (map (\<lambda>(attrs, inds).
                      map (\<lambda>rw. single_entry nc nr (the (inds CH)) (the (inds ROUND)) (rw ''intensity''))
                        (rows attrs)) spot_attributes)\<rparr>"
    by (simp add: empty_intensity_table_def pd_concat_def single_entry_def)
  finally show ?thesis
    unfolding nc_def nr_def mc_def mr_def chs_def rounds_def .
qed

text \<open>
  C4. For a non-empty sequence of per-slice results, the channel extent of the table is
  the largest channel index plus one, the round extent the largest round index plus one,
  and the rows are the rows of the slices one after the other: their number is the sum
  of the per-slice numbers, and no two input rows share an output row.
\<close>

theorem concatenate_extents_and_rows:
  assumes "spot_attributes \<noteq> []" and "valid_slices spot_attributes"
  shows "\<exists>it. concatenate_spot_attributes_to_intensities spot_attributes = Inr it
    \<and> n_c it = Max (set (map (\<lambda>(attrs, inds). the (inds CH)) spot_attributes)) + 1
    \<and> n_r it = Max (set (map (\<lambda>(attrs, inds). the (inds ROUND)) spot_attributes)) + 1
    \<and> length (tensor it) = sum_list (map (\<lambda>(attrs, inds). length (rows attrs)) spot_attributes)
    \<and> length (rows (features it)) =
        sum_list (map (\<lambda>(attrs, inds). length (rows attrs)) spot_attributes)
    \<and> rows (features it) =
        concat (map (\<lambda>(attrs, inds). map (\<lambda>rw. rw |` (- {''spot_id'', ''intensity''})) (rows attrs))
                  spot_attributes)"
proof -
  have r: "map (\<lambda>rw. rw |` (- {''spot_id'', ''intensity''}))
             (concat (map rows (map fst spot_attributes))) =
           concat (map (\<lambda>(attrs, inds). map (\<lambda>rw. rw |` (- {''spot_id'', ''intensity''})) (rows attrs))
                  spot_attributes)"
    by (simp add: map_concat comp_def split_def)
  have l: "length (concat (map (\<lambda>(attrs, inds).
                     map (\<lambda>rw. rw |` (- {''spot_id'', ''intensity''})) (rows attrs)) spot_attributes)) =
           sum_list (map (\<lambda>(attrs, inds). length (rows attrs)) spot_attributes)"
    by (rule sum_list_rows)
  show ?thesis
    unfolding concatenate_valid [OF assms]
    by (simp only: sum.inject simp_thms ex_simps intensity_table.simps dataframe.simps r l
        sum_list_rows)
qed

theorem concatenate_extents_and_rows_witness:
  "example_slices \<noteq> [] \<and> valid_slices example_slices
   \<and> (\<exists>it. concatenate_spot_attributes_to_intensities example_slices = Inr it
         \<and> n_c it = 2 \<and> n_r it = 3 \<and> length (tensor it) = 3
         \<and> length (rows (features it)) = 3)"
proof -
  have n: "example_slices \<noteq> []"
    by (simp add: example_slices_def)
  have v: "valid_slices example_slices"
    by (simp add: valid_slices_def example_slices_def)
  from concatenate_extents_and_rows [OF n v]
  obtain it where
    res: "concatenate_spot_attributes_to_intensities example_slices = Inr it"
    and nc: "n_c it = Max (set (map (\<lambda>(attrs, inds). the (inds CH)) example_slices)) + 1"
    and nr: "n_r it = Max (set (map (\<lambda>(attrs, inds). the (inds ROUND)) example_slices)) + 1"
    and lt: "length (tensor it) =
               sum_list (map (\<lambda>(attrs, inds). length (rows attrs)) example_slices)"
    and lf: "length (rows (features it)) =
               sum_list (map (\<lambda>(attrs, inds). length (rows attrs)) example_slices)"
    by blast
  from nc have "n_c it = 2" by (simp add: example_slices_def)
  moreover from nr have "n_r it = 3" by (simp add: example_slices_def)
  moreover from lt have "length (tensor it) = 3" by (simp add: example_slices_def)
  moreover from lf have "length (rows (features it)) = 3" by (simp add: example_slices_def)
  ultimately show ?thesis
    using n v res by blast
qed

text \<open>
  C10. Each input row gives one write, at its running index over the pairs in input
  order and at the channel and round of its pair: the row of the tensor is the fresh
  matrix with that one entry written and every other entry unset. When no intensity is
  NaN, every row of the tensor has exactly one entry set.
\<close>

theorem concatenate_one_write_per_row:
  assumes "spot_attributes \<noteq> []" and "valid_slices spot_attributes"
  shows "\<exists>it. concatenate_spot_attributes_to_intensities spot_attributes = Inr it
    \<and> tensor it =
        concat (map (\<lambda>(attrs, inds).
                  map (\<lambda>rw. single_entry (n_c it) (n_r it) (the (inds CH)) (the (inds ROUND))
                              (rw ''intensity''))
                    (rows attrs)) spot_attributes)
    \<and> (\<forall>(attrs, inds) \<in> set spot_attributes.
          the (inds CH) < n_c it \<and> the (inds ROUND) < n_r it)
    \<and> (\<forall>c r v c' r'. c < n_c it \<longrightarrow> r < n_r it \<longrightarrow> c' < n_c it \<longrightarrow> r' < n_r it \<longrightarrow>
          single_entry (n_c it) (n_r it) c r v ! c' ! r' =
            (if c' = c \<and> r' = r then v else (None :: real option)))
    \<and> (list_all (\<lambda>(attrs, inds). list_all (\<lambda>rw. rw ''intensity'' \<noteq> None) (rows attrs))
          spot_attributes \<longrightarrow>
        (\<forall>i<length (tensor it).
           length (filter (\<lambda>e. e \<noteq> None) (concat (tensor it ! i))) = 1))"
proof -
  define nc where "nc = Max (set (map (\<lambda>(attrs, inds). the (inds CH)) spot_attributes)) + 1"
  define nr where "nr = Max (set (map (\<lambda>(attrs, inds). the (inds ROUND)) spot_attributes)) + 1"
  define T where "T = concat (map (\<lambda>(attrs, inds).
                  map (\<lambda>rw. single_entry nc nr (the (inds CH)) (the (inds ROUND))
                              (rw ''intensity''))
                    (rows attrs)) spot_attributes)"
  obtain it where res: "concatenate_spot_attributes_to_intensities spot_attributes = Inr it"
    and it: "n_c it = nc" "n_r it = nr" "tensor it = T"
    unfolding nc_def nr_def T_def using concatenate_valid [OF assms] by simp
  have rng: "\<forall>(attrs, inds) \<in> set spot_attributes. the (inds CH) < nc \<and> the (inds ROUND) < nr"
  proof (clarify)
    fix attrs inds assume m: "(attrs, inds) \<in> set spot_attributes"
    then have "the (inds CH) \<in> set (map (\<lambda>(attrs, inds). the (inds CH)) spot_attributes)"
      "the (inds ROUND) \<in> set (map (\<lambda>(attrs, inds). the (inds ROUND)) spot_attributes)"
      by force+
    then have "the (inds CH) \<le> Max (set (map (\<lambda>(attrs, inds). the (inds CH)) spot_attributes))"
      "the (inds ROUND) \<le> Max (set (map (\<lambda>(attrs, inds). the (inds ROUND)) spot_attributes))"
      by (simp_all del: set_map)
    then show "the (inds CH) < nc \<and> the (inds ROUND) < nr"
      by (simp add: nc_def nr_def)
  qed
  have one: "\<forall>c r v c' r'. c < nc \<longrightarrow> r < nr \<longrightarrow> c' < nc \<longrightarrow> r' < nr \<longrightarrow>
          single_entry nc nr c r v ! c' ! r' =
            (if c' = c \<and> r' = r then v else (None :: real option))"
    by (simp add: single_entry_nth)
  have cnt: "list_all (\<lambda>(attrs, inds). list_all (\<lambda>rw. rw ''intensity'' \<noteq> None) (rows attrs))
          spot_attributes \<longrightarrow>
        (\<forall>i<length T. length (filter (\<lambda>e. e \<noteq> None) (concat (T ! i))) = 1)"
  proof (intro impI allI)
    fix i
    assume a: "list_all (\<lambda>(attrs, inds). list_all (\<lambda>rw. rw ''intensity'' \<noteq> None) (rows attrs))
                 spot_attributes"
      and i: "i < length T"
    from i have "T ! i \<in> set T" by simp
    then obtain attrs inds rw where
      m: "(attrs, inds) \<in> set spot_attributes" and rw: "rw \<in> set (rows attrs)"
      and e: "T ! i = single_entry nc nr (the (inds CH)) (the (inds ROUND)) (rw ''intensity'')"
      unfolding T_def by auto
    from a m rw have "rw ''intensity'' \<noteq> None"
      by (fastforce simp: list_all_iff)
    then obtain v where v: "rw ''intensity'' = Some v"
      by blast
    from rng m have "the (inds CH) < nc" "the (inds ROUND) < nr" by auto
    then show "length (filter (\<lambda>e. e \<noteq> None) (concat (T ! i))) = 1"
      unfolding e v by (rule single_entry_count)
  qed
  from res it rng one cnt show ?thesis
    unfolding T_def by (intro exI [of _ it]) simp
qed

theorem concatenate_one_write_per_row_witness:
  "example_slices \<noteq> [] \<and> valid_slices example_slices
   \<and> (\<exists>it. concatenate_spot_attributes_to_intensities example_slices = Inr it
         \<and> tensor it =
             [[[Some 10, None, None], [None, None, None]],
              [[Some 20, None, None], [None, None, None]],
              [[None, None, None], [None, None, Some 30]]]
         \<and> (\<forall>i<length (tensor it).
               length (filter (\<lambda>e. e \<noteq> None) (concat (tensor it ! i))) = 1))"
proof -
  have n: "example_slices \<noteq> []"
    by (simp add: example_slices_def)
  have v: "valid_slices example_slices"
    by (simp add: valid_slices_def example_slices_def)
  have a: "list_all (\<lambda>(attrs, inds). list_all (\<lambda>rw. rw ''intensity'' \<noteq> None) (rows attrs))
             example_slices"
    by (simp add: example_slices_def found_def)
  from concatenate_one_write_per_row [OF n v]
  obtain it where
    res: "concatenate_spot_attributes_to_intensities example_slices = Inr it"
    and t: "tensor it =
        concat (map (\<lambda>(attrs, inds).
                  map (\<lambda>rw. single_entry (n_c it) (n_r it) (the (inds CH)) (the (inds ROUND))
                              (rw ''intensity''))
                    (rows attrs)) example_slices)"
    and cnt: "list_all (\<lambda>(attrs, inds). list_all (\<lambda>rw. rw ''intensity'' \<noteq> None) (rows attrs))
          example_slices \<longrightarrow>
        (\<forall>i<length (tensor it).
           length (filter (\<lambda>e. e \<noteq> None) (concat (tensor it ! i))) = 1)"
    by blast
  have sz: "n_c it = 2" "n_r it = 3"
    using res concatenate_valid [OF n v] by (auto simp: example_slices_def)
  have "tensor it =
             [[[Some 10, None, None], [None, None, None]],
              [[Some 20, None, None], [None, None, None]],
              [[None, None, None], [None, None, Some 30]]]"
    unfolding t sz
    by (simp add: example_slices_def found_def single_entry_def numeral_2_eq_2 numeral_3_eq_3)
  with n v res cnt a show ?thesis by blast
qed

subsection \<open>Where the configuration conflict can come from\<close>

lemma series_astype_int_raises:
  "series_astype_int s = Inl e \<Longrightarrow> e = ValueError nan_message"
  by (induction s rule: series_astype_int.induct) (auto split: sum.splits)

lemma box_radius_raises:
  "box_radius g s = Inl e \<Longrightarrow> e = ValueError nan_message"
  by (auto simp: box_radius_def split: if_splits sum.splits dest: series_astype_int_raises)

lemma add_bounds_raises:
  "add_bounds axs radius df = (Some e, df') \<Longrightarrow> \<exists>k. e = KeyError k"
proof (induction axs arbitrary: df)
  case Nil
  then show ?case by simp
next
  case (Cons a axs)
  obtain v n where a: "a = (v, n)" by (cases a)
  show ?case
  proof (cases "v \<in> columns df")
    case False
    then show ?thesis
      using Cons.prems by (auto simp: a getitem_def)
  next
    case True
    then show ?thesis
      using Cons.prems Cons.IH by (simp only: a add_bounds_step)
  qed
qed

lemma row_box_raises: "row_box rw = Inl e \<Longrightarrow> e = ValueError nan_message"
  by (auto simp: row_box_def split: option.splits)

lemma select_boxes_raises:
  "select_boxes df = Inl e \<Longrightarrow> (\<exists>k. e = KeyError k) \<or> e = ValueError nan_message"
  by (auto simp: select_boxes_def split: list.splits dest!: apply_rows_error row_box_raises)

lemma nan_not_conflict: "ValueError nan_message \<noteq> ValueError conflict_message"
  by (simp add: nan_message_def conflict_message_def)

lemma measure_spot_intensity_raises:
  assumes "fst (measure_spot_intensity img spots mf g) = Inl e"
  shows "e \<noteq> ValueError conflict_message"
proof (cases "getitem spots ''radius''")
  case (Inl e')
  then show ?thesis
    using assms by (auto simp: measure_spot_intensity_def getitem_def split: if_splits)
next
  case s: (Inr s)
  show ?thesis
  proof (cases "box_radius g s")
    case (Inl e')
    then show ?thesis
      using assms s nan_not_conflict
      by (auto simp: measure_spot_intensity_def dest: box_radius_raises)
  next
    case radius: (Inr radius)
    obtain eo df' where ab:
      "add_bounds (zip [''z'', ''y'', ''x''] (image_shape img)) radius spots = (eo, df')"
      by (cases "add_bounds (zip [''z'', ''y'', ''x''] (image_shape img)) radius spots")
    show ?thesis
    proof (cases eo)
      case (Some e')
      then show ?thesis
        using assms s radius ab add_bounds_raises [of _ radius spots e' df']
        by (auto simp: measure_spot_intensity_def)
    next
      case None
      show ?thesis
      proof (cases "select_boxes df'")
        case (Inl e')
        then show ?thesis
          using assms s radius ab None nan_not_conflict select_boxes_raises [of df' e']
          by (auto simp: measure_spot_intensity_def)
      next
        case (Inr boxes)
        then have "apply_rows (\<lambda>b. external (mf (crop img b))) boxes = Inl e"
          using assms s radius ab None by (simp add: measure_spot_intensity_def)
        then obtain b where "external (mf (crop img b)) = Inl e"
          by (auto dest: apply_rows_error)
        then show ?thesis
          by (auto simp: external_def split: sum.splits)
      qed
    qed
  qed
qed

lemma set_slice_raises: "set_slice it c r vals = Inl e \<Longrightarrow> e \<noteq> ValueError conflict_message"
  by (auto simp: set_slice_def conflict_message_def split: if_splits)

lemma fill_intensity_table_raises:
  "fst (fill_intensity_table data_image mf g idx spots it) = Inl e
     \<Longrightarrow> e \<noteq> ValueError conflict_message"
proof (induction idx arbitrary: spots it)
  case Nil
  then show ?case by simp
next
  case (Cons cr idx)
  obtain c r where cr: "cr = (c, r)" by (cases cr)
  obtain res spots' where m:
    "measure_spot_intensity (get_slice data_image c r) spots mf g = (res, spots')"
    by (cases "measure_spot_intensity (get_slice data_image c r) spots mf g")
  show ?case
  proof (cases res)
    case (Inl e')
    then have "e' = e" using Cons.prems m by (simp add: cr)
    moreover have "fst (measure_spot_intensity (get_slice data_image c r) spots mf g) = Inl e'"
      using m Inl by simp
    ultimately show ?thesis by (auto dest: measure_spot_intensity_raises)
  next
    case vals: (Inr vals)
    show ?thesis
    proof (cases "set_slice it c r vals")
      case (Inl e')
      then have "e' = e" using Cons.prems m vals by (simp add: cr)
      with Inl show ?thesis by (auto dest: set_slice_raises)
    next
      case (Inr it')
      then have "fst (fill_intensity_table data_image mf g idx spots' it') = Inl e"
        using Cons.prems m vals by (simp add: cr)
      then show ?thesis by (rule Cons.IH)
    qed
  qed
qed

lemma measure_spot_intensities_raises:
  "fst (measure_spot_intensities data_image spots mf g) = Inl e
     \<Longrightarrow> e \<noteq> ValueError conflict_message"
  by (auto simp: measure_spot_intensities_def Let_def split: if_splits
      dest: fill_intensity_table_raises)

lemma py_max_raises: "py_max xs = Inl e \<Longrightarrow> e \<noteq> ValueError conflict_message"
  by (cases xs) (auto simp: conflict_message_def)

lemma axis_indices_raises: "axis_indices ax sa = Inl e \<Longrightarrow> \<exists>k. e = KeyError k"
  by (auto simp: axis_indices_def split: option.splits dest!: apply_rows_error)

lemma drop_columns_raises: "drop_columns df labels = Inl e \<Longrightarrow> \<exists>k. e = KeyError k"
  by (auto simp: drop_columns_def split: list.splits)

lemma set_entry_raises: "set_entry it i c r v = Inl e \<Longrightarrow> \<exists>k. e = IndexError k"
  by (auto simp: set_entry_def split: if_splits)

lemma fill_rows_raises:
  "fill_rows cols rws inds i it = Inl e \<Longrightarrow> (\<exists>k. e = KeyError k) \<or> (\<exists>k. e = IndexError k)"
proof (induction rws arbitrary: i it)
  case Nil
  then show ?case by simp
next
  case (Cons rw rws)
  then show ?case
    by (auto split: option.splits if_splits sum.splits dest: set_entry_raises)
qed

lemma fill_pairs_raises:
  "fill_pairs sa i it = Inl e \<Longrightarrow> (\<exists>k. e = KeyError k) \<or> (\<exists>k. e = IndexError k)"
proof (induction sa arbitrary: i it)
  case Nil
  then show ?case by simp
next
  case (Cons p sa)
  obtain attrs inds where p: "p = (attrs, inds)" by (cases p)
  show ?case
  proof (cases "fill_rows (columns attrs) (rows attrs) inds i it")
    case (Inl e')
    then show ?thesis
      using Cons.prems fill_rows_raises [of "columns attrs" "rows attrs" inds i it e']
      by (simp add: p)
  next
    case (Inr q)
    then show ?thesis
      using Cons.prems Cons.IH by (cases q) (simp add: p)
  qed
qed

lemma concatenate_raises:
  assumes "concatenate_spot_attributes_to_intensities sa = Inl e"
  shows "e \<noteq> ValueError conflict_message"
  using assms
  unfolding concatenate_spot_attributes_to_intensities_def Let_def
  by (auto split: sum.splits
      dest: py_max_raises dest!: axis_indices_raises drop_columns_raises fill_pairs_raises)

text \<open>
  C6. With both a reference image and the max-projection flag the call raises the
  configuration conflict, whatever the stack, the spot finder, the measurement function
  and the coordinate transfer are: none of them is consulted, and no table is returned.
  With at most one of the two, no path raises that error.
\<close>

theorem detect_spots_configuration_conflict:
  "(reference_image \<noteq> None \<and> reference_image_from_max_projection \<longrightarrow>
      detect_spots data_stack spot_finding_method reference_image
        reference_image_from_max_projection measurement_function radius_is_gyration
        n_processes transfer_physical_coords = Inl (ValueError conflict_message))
   \<and> (\<not> (reference_image \<noteq> None \<and> reference_image_from_max_projection) \<longrightarrow>
      detect_spots data_stack spot_finding_method reference_image
        reference_image_from_max_projection measurement_function radius_is_gyration
        n_processes transfer_physical_coords \<noteq> Inl (ValueError conflict_message))"
proof (intro conjI impI)
  assume "reference_image \<noteq> None \<and> reference_image_from_max_projection"
  then show "detect_spots data_stack spot_finding_method reference_image
        reference_image_from_max_projection measurement_function radius_is_gyration
        n_processes transfer_physical_coords = Inl (ValueError conflict_message)"
    by (simp add: detect_spots_def)
next
  assume n: "\<not> (reference_image \<noteq> None \<and> reference_image_from_max_projection)"
  have al: "ValueError alignment_message \<noteq> ValueError conflict_message"
    by (simp add: alignment_message_def conflict_message_def)
  have ex: "\<And>(x :: string + real intensity_table). external x \<noteq> Inl (ValueError conflict_message)"
    by (simp add: external_def split: sum.splits)
  have ms: "\<And>spots. fst (measure_spot_intensities data_stack spots measurement_function
                radius_is_gyration) \<noteq> Inl (ValueError conflict_message)"
    using measure_spot_intensities_raises by blast
  have cc: "\<And>sa. concatenate_spot_attributes_to_intensities sa \<noteq> Inl (ValueError conflict_message)"
    using concatenate_raises by blast
  show "detect_spots data_stack spot_finding_method reference_image
        reference_image_from_max_projection measurement_function radius_is_gyration
        n_processes transfer_physical_coords \<noteq> Inl (ValueError conflict_message)"
    using n al ex ms cc
    by (auto simp: detect_spots_def external_def split: sum.splits option.splits if_splits)
qed

theorem detect_spots_configuration_conflict_witness:
  "detect_spots example_stack example_finder (Some example_image) True np_max False None
     example_transfer = Inl (ValueError conflict_message)
   \<and> detect_spots example_stack example_finder (Some example_image) False np_max False None
       example_transfer \<noteq> Inl (ValueError conflict_message)
   \<and> detect_spots example_stack example_finder None True np_max False None
       example_transfer \<noteq> Inl (ValueError conflict_message)
   \<and> detect_spots example_stack example_finder None False np_max False None
       example_transfer \<noteq> Inl (ValueError conflict_message)"
  using detect_spots_configuration_conflict
          [of "Some example_image" True example_stack example_finder np_max False None
              example_transfer]
        detect_spots_configuration_conflict
          [of "Some example_image" False example_stack example_finder np_max False None
              example_transfer]
        detect_spots_configuration_conflict
          [of None True example_stack example_finder np_max False None example_transfer]
        detect_spots_configuration_conflict
          [of None False example_stack example_finder np_max False None example_transfer]
  by simp

end
